theory Spec2Isabelle
  imports Main
begin

section \<open>JavaScript strings and arrays\<close>

text \<open>
  A JavaScript string is a sequence of UTF-16 code units. It is modelled as a
  \<^typ>\<open>string\<close>, one \<^typ>\<open>char\<close> per code unit, which covers the code units below 256.
  Among these, the characters that \<^verbatim>\<open>String.prototype.trim\<close> removes and that the
  regular expression class \<^verbatim>\<open>\s\<close> matches are TAB, LF, VT, FF, CR, SPACE and NBSP.
\<close>

definition is_space :: "char \<Rightarrow> bool" where
  "is_space c = (c \<in> {CHR 0x09, CHR 0x0A, CHR 0x0B, CHR 0x0C, CHR 0x0D, CHR '' '', CHR 0xA0})"

text \<open>\<^verbatim>\<open>s.trim()\<close>\<close>

definition js_trim :: "string \<Rightarrow> string" where
  "js_trim s = rev (dropWhile is_space (rev (dropWhile is_space s)))"

text \<open>\<^verbatim>\<open>s.startsWith(p)\<close>\<close>

definition js_startsWith :: "string \<Rightarrow> string \<Rightarrow> bool" where
  "js_startsWith s p = (take (length p) s = p)"

text \<open>\<^verbatim>\<open>s.includes(p)\<close>: \<open>p\<close> occurs in \<open>s\<close> at some position.\<close>

fun js_includes :: "string \<Rightarrow> string \<Rightarrow> bool" where
  "js_includes [] p = (p = [])"
| "js_includes (c # cs) p = (js_startsWith (c # cs) p \<or> js_includes cs p)"

text \<open>
  \<^verbatim>\<open>s.split(d)\<close> for a one-character separator: the pieces between the separators,
  empty pieces included; the result is never empty.
\<close>

fun js_split :: "char \<Rightarrow> string \<Rightarrow> string list" where
  "js_split d [] = [[]]"
| "js_split d (c # cs) =
     (if c = d then [] # js_split d cs
      else (case js_split d cs of [] \<Rightarrow> [[c]] | x # xs \<Rightarrow> (c # x) # xs))"

text \<open>\<^verbatim>\<open>xs.indexOf(x)\<close>: the first index holding \<open>x\<close>, or \<open>-1\<close>.\<close>

fun indexOf :: "'a list \<Rightarrow> 'a \<Rightarrow> int" where
  "indexOf [] x = - 1"
| "indexOf (y # ys) x =
     (if y = x then 0 else if indexOf ys x = - 1 then - 1 else indexOf ys x + 1)"

text \<open>
  Truthiness of an optional string (\<^verbatim>\<open>string | undefined\<close>): \<^verbatim>\<open>undefined\<close> and the
  empty string are falsy. \<^verbatim>\<open>a || b\<close> yields \<open>a\<close> when it is truthy and \<open>b\<close> otherwise.
\<close>

definition truthy :: "string option \<Rightarrow> bool" where
  "truthy v = (case v of None \<Rightarrow> False | Some s \<Rightarrow> s \<noteq> [])"

definition js_or :: "string option \<Rightarrow> string option \<Rightarrow> string option" where
  "js_or a b = (if truthy a then a else b)"

text \<open>
  \<^verbatim>\<open>String(n)\<close> for an integral number: its decimal digits, with a minus sign when
  negative (JavaScript prints integers of magnitude below \<open>10^21\<close> this way).
\<close>

definition digit_char :: "nat \<Rightarrow> char" where
  "digit_char d = ''0123456789'' ! d"

function string_of_nat :: "nat \<Rightarrow> string" where
  "string_of_nat n =
     (if n < 10 then [digit_char n] else string_of_nat (n div 10) @ [digit_char (n mod 10)])"
  by pat_completeness auto
termination
  by (relation "measure id") auto

declare string_of_nat.simps [simp del]

definition number_to_string :: "int \<Rightarrow> string" where
  "number_to_string n = (if n < 0 then CHR ''-'' # string_of_nat (nat (- n)) else string_of_nat (nat n))"

section \<open>The Azure DevOps plugin (src/plugins/azure.ts)\<close>

subsection \<open>stripRefsHeads\<close>

definition REFS_HEADS :: string where
  "REFS_HEADS = ''refs/heads/''"

definition stripRefsHeads :: "string \<Rightarrow> string" where
  "stripRefsHeads ref = (if js_startsWith ref REFS_HEADS then drop (length REFS_HEADS) ref else ref)"

subsection \<open>parsePrUrl\<close>

text \<open>
  The result object \<^verbatim>\<open>{ org, project, repository, prId }\<close>; \<^verbatim>\<open>null\<close> is \<open>None\<close>.
\<close>

record pr_url =
  url_org :: string
  url_project :: string
  url_repository :: string
  url_prId :: string

text \<open>\<^verbatim>\<open>u.pathname.split('/').filter(Boolean)\<close>: the non-empty segments of the path.\<close>

definition pathParts_of :: "string \<Rightarrow> string list" where
  "pathParts_of pathname = filter (\<lambda>p. p \<noteq> []) (js_split CHR ''/'' pathname)"

text \<open>
  \<^verbatim>\<open>new URL(trimmed).pathname\<close> is the platform's URL parser, not code of this
  repository. It is the parameter \<open>url_pathname\<close>: \<open>None\<close> when the constructor throws
  (which the \<^verbatim>\<open>catch\<close> turns into \<^verbatim>\<open>null\<close>), the path otherwise. The array reads are
  in range wherever they are reached (lemma \<open>parsePrUrl_reads_in_range\<close> below).
\<close>

definition parsePrUrl :: "(string \<Rightarrow> string option) \<Rightarrow> string \<Rightarrow> pr_url option" where
  "parsePrUrl url_pathname url =
     (let trimmed = js_trim url in
      if \<not> js_includes trimmed ''dev.azure.com'' \<or> \<not> js_includes trimmed ''pullrequest''
      then None
      else
        (case url_pathname trimmed of
           None \<Rightarrow> None
         | Some pathname \<Rightarrow>
            (let pathParts = pathParts_of pathname;
                 pullRequestIdx = indexOf pathParts ''pullrequest''
             in if pullRequestIdx = - 1 \<or> pullRequestIdx \<ge> int (length pathParts) - 1
                then None
                else
                  (let prId = pathParts ! nat (pullRequestIdx + 1);
                       gitIdx = indexOf pathParts ''_git''
                   in if gitIdx = - 1 \<or> gitIdx \<ge> int (length pathParts) - 1
                      then None
                      else
                        (let repository = pathParts ! nat (gitIdx + 1)
                         in if length pathParts < 2 then None
                            else Some \<lparr>url_org = pathParts ! 0, url_project = pathParts ! 1,
                                        url_repository = repository, url_prId = prId\<rparr>)))))"

text \<open>
  A stand-in for the platform's URL parser on plain inputs, used only to evaluate
  \<open>parsePrUrl\<close> at concrete URLs: for \<^verbatim>\<open>https://host/seg/.../seg\<close>, with host and
  segments made of letters, digits, \<^verbatim>\<open>.\<close>, \<^verbatim>\<open>_\<close> and \<^verbatim>\<open>-\<close>, the platform's
  \<^verbatim>\<open>pathname\<close> is the text from the first \<^verbatim>\<open>/\<close> after the host on.
\<close>

definition url_pathname_plain :: "string \<Rightarrow> string option" where
  "url_pathname_plain s =
     (if js_startsWith s ''https://''
      then (let rest = drop 8 s;
                host = takeWhile (\<lambda>c. c \<noteq> CHR ''/'') rest;
                path = dropWhile (\<lambda>c. c \<noteq> CHR ''/'') rest
            in if host = [] then None else Some (if path = [] then ''/'' else path))
      else None)"

text \<open>
  The segment that follows the first occurrence of a marker segment, if there is one:
  what the two \<^verbatim>\<open>indexOf\<close> lookups of \<open>parsePrUrl\<close> select.
\<close>

fun after_first :: "'a \<Rightarrow> 'a list \<Rightarrow> 'a option" where
  "after_first m [] = None"
| "after_first m [x] = None"
| "after_first m (x # y # ys) = (if x = m then Some y else after_first m (y # ys))"

subsection \<open>getAzureConfig and isAzureConfigured\<close>

text \<open>\<^verbatim>\<open>process.env\<close>: a variable that is not set reads as \<^verbatim>\<open>undefined\<close>.\<close>

type_synonym env = "string \<rightharpoonup> string"

record azure_config =
  cfg_orgUrl :: "string option"
  cfg_project :: "string option"
  cfg_pat :: "string option"

definition getAzureConfig :: "env \<Rightarrow> azure_config" where
  "getAzureConfig env =
     (let orgUrl = env ''AZURE_ORG_URL'';
          orgName = env ''AZURE_DEVOPS_ORG'';
          project = js_or (env ''AZURE_PROJECT'') (env ''AZURE_DEVOPS_PROJECT'');
          pat = js_or (env ''AZURE_PAT'') (env ''AZURE_DEVOPS_PAT'');
          resolvedOrgUrl =
            js_or orgUrl
              (case orgName of
                 None \<Rightarrow> None
               | Some n \<Rightarrow> if n = [] then None else Some (''https://dev.azure.com/'' @ n))
      in \<lparr>cfg_orgUrl = resolvedOrgUrl, cfg_project = project, cfg_pat = pat\<rparr>)"

definition isAzureConfigured :: "env \<Rightarrow> bool" where
  "isAzureConfigured env =
     (let c = getAzureConfig env
      in truthy (cfg_orgUrl c) \<and> truthy (cfg_project c) \<and> truthy (cfg_pat c))"

subsection \<open>getPrDetails\<close>

record PrDetails =
  repository :: string
  sourceBranch :: string
  targetBranch :: string
  pullRequestId :: int

text \<open>
  The JSON document of the provider, \<^verbatim>\<open>{pullRequestId, repository: {name},
  sourceRefName, targetRefName}\<close>, and the HTTP response that carries it. \<open>resp_json\<close> is
  \<open>None\<close> when \<^verbatim>\<open>response.json()\<close> rejects.
\<close>

record pr_json =
  json_pullRequestId :: int
  json_repository_name :: string
  json_sourceRefName :: string
  json_targetRefName :: string

record http_response =
  resp_ok :: bool
  resp_status :: nat
  resp_statusText :: string
  resp_json :: "pr_json option"

datatype fetch_result = FetchRejected | Fetched http_response

datatype error =
    MissingAzureConfig
  | Unauthorized
  | FetchFailed string
  | RequestRejected
  | AzureNotConfigured
  | RepoNotFound string
  | DiffError string

text \<open>\<^verbatim>\<open>org.replace(/\/$/, '')\<close>: one trailing slash is removed.\<close>

definition strip_trailing_slash :: "string \<Rightarrow> string" where
  "strip_trailing_slash s = (if s \<noteq> [] \<and> last s = CHR ''/'' then butlast s else s)"

text \<open>
  The remote provider is the parameter \<open>fetch\<close>: it receives the request URL and the
  credentials \<^verbatim>\<open>:<pat>\<close> that the code sends base64-encoded in the
  \<^verbatim>\<open>Authorization\<close> header. A thrown \<^verbatim>\<open>Error\<close> is an \<open>Inl\<close> result.
  \<^verbatim>\<open>a ?? b\<close> yields \<open>b\<close> only when \<open>a\<close> is \<^verbatim>\<open>undefined\<close>.
\<close>

definition getPrDetails ::
  "(string \<Rightarrow> string \<Rightarrow> fetch_result) \<Rightarrow> env \<Rightarrow> string \<Rightarrow> string option \<Rightarrow> string option
     \<Rightarrow> error + PrDetails" where
  "getPrDetails fetch env prId orgUrlOverride projectOverride =
     (let config = getAzureConfig env;
          org = (case orgUrlOverride of Some v \<Rightarrow> Some v | None \<Rightarrow> cfg_orgUrl config);
          proj = (case projectOverride of Some v \<Rightarrow> Some v | None \<Rightarrow> cfg_project config);
          pat = cfg_pat config
      in case (org, proj, pat) of
           (Some org', Some proj', Some pat') \<Rightarrow>
             if org' = [] \<or> proj' = [] \<or> pat' = [] then Inl MissingAzureConfig
             else
               (let baseUrl = strip_trailing_slash org';
                    url = baseUrl @ ''/'' @ proj' @ ''/_apis/git/pullrequests/'' @ prId
                            @ ''?api-version=7.0'';
                    patTrimmed = js_trim pat'
                in case fetch url (CHR '':'' # patTrimmed) of
                     FetchRejected \<Rightarrow> Inl RequestRejected
                   | Fetched response \<Rightarrow>
                       if \<not> resp_ok response
                       then (if resp_status response = 401 then Inl Unauthorized
                             else Inl (FetchFailed (resp_statusText response)))
                       else
                         (case resp_json response of
                            None \<Rightarrow> Inl RequestRejected
                          | Some data \<Rightarrow>
                              Inr \<lparr>repository = json_repository_name data,
                                   sourceBranch = stripRefsHeads (json_sourceRefName data),
                                   targetBranch = stripRefsHeads (json_targetRefName data),
                                   pullRequestId = json_pullRequestId data\<rparr>))
         | _ \<Rightarrow> Inl MissingAzureConfig)"

section \<open>The command line (src/cli.ts)\<close>

subsection \<open>Resolution of a pull request (main, the prIdOrUrl branch)\<close>

record review_target =
  rt_repoPath :: string
  rt_baseBranch :: string
  rt_headBranch :: string
  rt_prId :: "int option"
  rt_repoName :: string

text \<open>
  The branch \<^verbatim>\<open>if (args.prIdOrUrl) { ... }\<close> of \<open>main\<close>. \<^verbatim>\<open>path.join\<close> and
  \<^verbatim>\<open>fs.existsSync\<close> belong to the platform and are parameters; \<^verbatim>\<open>process.exit(1)\<close>
  after a diagnostic is an \<open>Inl\<close> result.
\<close>

definition resolve_pr ::
  "(string \<Rightarrow> string option) \<Rightarrow> (string \<Rightarrow> string \<Rightarrow> fetch_result) \<Rightarrow> (string \<Rightarrow> string \<Rightarrow> string)
     \<Rightarrow> (string \<Rightarrow> bool) \<Rightarrow> env \<Rightarrow> string \<Rightarrow> string \<Rightarrow> error + review_target" where
  "resolve_pr url_pathname fetch path_join existsSync env reposRoot prIdOrUrl =
     (let resolved =
            (case parsePrUrl url_pathname prIdOrUrl of
               Some parsed \<Rightarrow>
                 (case getPrDetails fetch env (url_prId parsed)
                         (Some (''https://dev.azure.com/'' @ url_org parsed))
                         (Some (url_project parsed)) of
                    Inl e \<Rightarrow> Inl e
                  | Inr details \<Rightarrow> Inr (details, url_repository parsed))
             | None \<Rightarrow>
                 if \<not> isAzureConfigured env then Inl AzureNotConfigured
                 else
                   (case getPrDetails fetch env prIdOrUrl None None of
                      Inl e \<Rightarrow> Inl e
                    | Inr details \<Rightarrow> Inr (details, repository details)))
      in case resolved of
           Inl e \<Rightarrow> Inl e
         | Inr (details, repoName) \<Rightarrow>
             (let repoPath = path_join reposRoot repoName
              in if \<not> existsSync repoPath then Inl (RepoNotFound repoPath)
                 else Inr \<lparr>rt_repoPath = repoPath,
                           rt_baseBranch = targetBranch details,
                           rt_headBranch = sourceBranch details,
                           rt_prId = Some (pullRequestId details),
                           rt_repoName = repoName\<rparr>))"

text \<open>A plain \<^verbatim>\<open>path.join\<close> for concrete evaluations: two clean segments joined by a slash.\<close>

definition path_join_plain :: "string \<Rightarrow> string \<Rightarrow> string" where
  "path_join_plain a b = a @ ''/'' @ b"

subsection \<open>parseArgs\<close>

record cli_args =
  arg_prIdOrUrl :: "string option"
  arg_base :: "string option"
  arg_head :: "string option"
  arg_repo :: "string option"
  arg_outputDir :: "string option"

text \<open>\<^verbatim>\<open>argv[k]\<close>: \<^verbatim>\<open>undefined\<close> beyond the end of the array.\<close>

definition js_nth :: "'a list \<Rightarrow> nat \<Rightarrow> 'a option" where
  "js_nth xs k = (if k < length xs then Some (xs ! k) else None)"

text \<open>\<^verbatim>\<open>/^\d+$/.test(arg)\<close>: one or more characters, all of them decimal digits.\<close>

definition is_digit :: "char \<Rightarrow> bool" where
  "is_digit c = (c \<in> set ''0123456789'')"

definition all_digits :: "string \<Rightarrow> bool" where
  "all_digits s = (s \<noteq> [] \<and> list_all is_digit s)"

text \<open>
  The \<^verbatim>\<open>while (i < argv.length)\<close> loop of \<open>parseArgs\<close>, with the index \<open>i\<close> and the
  \<open>result\<close> object as its state. An option consumes two positions
  (\<^verbatim>\<open>argv[++i]; i++\<close>); a first positional argument that is neither a number nor a
  pull request URL is taken as the base branch together with the next position as the
  head branch, and the index then advances by \<^verbatim>\<open>i += 2\<close> followed by \<^verbatim>\<open>i++\<close>.
\<close>

function parseArgs_loop :: "string list \<Rightarrow> nat \<Rightarrow> cli_args \<Rightarrow> cli_args" where
  "parseArgs_loop argv i result =
     (if i < length argv then
        (let arg = argv ! i in
         if arg = ''--pr'' \<or> arg = ''-p''
         then parseArgs_loop argv (i + 2) (result\<lparr>arg_prIdOrUrl := js_nth argv (i + 1)\<rparr>)
         else if arg = ''--output-dir'' \<or> arg = ''-o''
         then parseArgs_loop argv (i + 2) (result\<lparr>arg_outputDir := js_nth argv (i + 1)\<rparr>)
         else if arg = ''--base'' \<or> arg = ''-b''
         then parseArgs_loop argv (i + 2) (result\<lparr>arg_base := js_nth argv (i + 1)\<rparr>)
         else if arg = ''--head'' \<or> arg = ''-h''
         then parseArgs_loop argv (i + 2) (result\<lparr>arg_head := js_nth argv (i + 1)\<rparr>)
         else if arg = ''--repo'' \<or> arg = ''-r''
         then parseArgs_loop argv (i + 2) (result\<lparr>arg_repo := js_nth argv (i + 1)\<rparr>)
         else if js_startsWith arg ''-''
         then parseArgs_loop argv (i + 1) result
         else if \<not> truthy (arg_prIdOrUrl result) \<and> \<not> truthy (arg_base result)
         then
           (if all_digits arg
            then parseArgs_loop argv (i + 1) (result\<lparr>arg_prIdOrUrl := Some arg\<rparr>)
            else if js_includes arg ''dev.azure.com'' \<and> js_includes arg ''pullrequest''
            then parseArgs_loop argv (i + 1) (result\<lparr>arg_prIdOrUrl := Some arg\<rparr>)
            else parseArgs_loop argv (i + 2 + 1)
                   (result\<lparr>arg_base := Some arg, arg_head := js_nth argv (i + 1)\<rparr>))
         else parseArgs_loop argv (i + 1) result)
      else result)"
  by pat_completeness auto
termination
  by (relation "measure (\<lambda>(argv, i, result). length argv - i)") auto

declare parseArgs_loop.simps [simp del]

definition parseArgs :: "string list \<Rightarrow> cli_args" where
  "parseArgs argv =
     parseArgs_loop argv 0
       \<lparr>arg_prIdOrUrl = None, arg_base = None, arg_head = None, arg_repo = None,
        arg_outputDir = None\<rparr>"

subsection \<open>Where the repository comes from in direct mode (main)\<close>

text \<open>
  The chain \<^verbatim>\<open>if (args.repo) ... else if (outputDir) ... else ...\<close> of \<open>main\<close>: a
  \<^verbatim>\<open>--repo\<close> argument names the repository; otherwise a requested output directory
  makes \<open>main\<close> call \<^verbatim>\<open>promptForRepo\<close>; otherwise the git root of the working directory
  is used, and \<^verbatim>\<open>promptForRepo\<close> is only the fallback when that fails.
\<close>

datatype repo_source = RepoFromArgument | RepoPrompted | RepoFromWorkingDirectory

definition direct_repo_source :: "cli_args \<Rightarrow> repo_source" where
  "direct_repo_source args =
     (if truthy (arg_repo args) then RepoFromArgument
      else if truthy (arg_outputDir args) then RepoPrompted
      else RepoFromWorkingDirectory)"

subsection \<open>Artifact file names\<close>

definition DIFF_FILE_BASE :: string where
  "DIFF_FILE_BASE = ''.codehermit-diff.txt''"

definition OUTPUT_FILE_BASE :: string where
  "OUTPUT_FILE_BASE = ''.codehermit-output.md''"

text \<open>
  \<^verbatim>\<open>branch.replace(/[/\\]/g, '_').replace(/\s/g, '_')\<close>; \<open>CHR 0x5C\<close> is the backslash.
\<close>

definition sanitizeBranchForFile :: "string \<Rightarrow> string" where
  "sanitizeBranchForFile branch =
     map (\<lambda>c. if is_space c then CHR ''_'' else c)
       (map (\<lambda>c. if c = CHR ''/'' \<or> c = CHR 0x5C then CHR ''_'' else c) branch)"

text \<open>
  Truthiness of \<^verbatim>\<open>prId: number | undefined\<close>, for the integral identifiers the provider
  returns: \<^verbatim>\<open>undefined\<close> and \<open>0\<close> are falsy.
\<close>

definition truthy_number :: "int option \<Rightarrow> bool" where
  "truthy_number v = (case v of None \<Rightarrow> False | Some n \<Rightarrow> n \<noteq> 0)"

text \<open>\<^verbatim>\<open>${prId}\<close> in a template literal; \<^verbatim>\<open>undefined\<close> prints as its name.\<close>

definition template_number :: "int option \<Rightarrow> string" where
  "template_number v = (case v of None \<Rightarrow> ''undefined'' | Some n \<Rightarrow> number_to_string n)"

definition diffFileName :: "int option \<Rightarrow> string option \<Rightarrow> string \<Rightarrow> string \<Rightarrow> string" where
  "diffFileName prId outputDir baseBranch headBranch =
     (if truthy_number prId
      then ''.'' @ template_number prId @ ''.codehermit-diff.txt''
      else if truthy outputDir
      then ''.'' @ sanitizeBranchForFile baseBranch @ ''_'' @ sanitizeBranchForFile headBranch
             @ ''.codehermit-diff.txt''
      else DIFF_FILE_BASE)"

definition outputFileName :: "int option \<Rightarrow> string option \<Rightarrow> string \<Rightarrow> string \<Rightarrow> string" where
  "outputFileName prId outputDir baseBranch headBranch =
     (if truthy_number prId
      then ''.'' @ template_number prId @ ''.codehermit-output.md''
      else if truthy outputDir
      then ''.'' @ sanitizeBranchForFile baseBranch @ ''_'' @ sanitizeBranchForFile headBranch
             @ ''.codehermit-output.md''
      else OUTPUT_FILE_BASE)"

section \<open>Diff acquisition (src/get-diff.ts)\<close>

definition toRef :: "string \<Rightarrow> string" where
  "toRef ref =
     (if js_startsWith ref ''origin/'' \<or> js_startsWith ref ''refs/'' then ref
      else ''origin/'' @ ref)"

text \<open>
  \<^verbatim>\<open>execSync(command, {cwd, encoding: 'utf-8', ...})\<close> is the platform: it returns the
  standard output of the command, or throws an error object when the command fails.
  \<open>ExecFailed stdout message\<close> is that error object: \<open>stdout\<close> is its \<^verbatim>\<open>stdout\<close>
  property (\<open>None\<close> when absent or \<^verbatim>\<open>null\<close>), \<open>message\<close> its message.
\<close>

datatype exec_result = ExecOk string | ExecFailed "string option" string

definition getDiffContent ::
  "(string \<Rightarrow> string \<Rightarrow> exec_result) \<Rightarrow> string \<Rightarrow> string \<Rightarrow> string \<Rightarrow> error + string" where
  "getDiffContent execSync repoRoot baseRef headRef =
     (let base = toRef baseRef;
          head = toRef headRef
      in case execSync (''git diff '' @ base @ ''...'' @ head) repoRoot of
           ExecOk out \<Rightarrow> Inr out
         | ExecFailed stdout message \<Rightarrow>
             (case stdout of
                Some text \<Rightarrow>
                  if text \<noteq> [] then Inr text
                  else Inl (DiffError (''Failed to get diff: '' @ message))
              | None \<Rightarrow> Inl (DiffError (''Failed to get diff: '' @ message))))"

section \<open>Supervision of the review agent (runReview)\<close>

text \<open>
  \<open>runReview\<close> registers a timer and four event handlers and returns; everything after
  that happens in the handlers, one event at a time. The events are the ticks of the
  80 ms spinner timer, the \<^verbatim>\<open>data\<close> and \<^verbatim>\<open>end\<close> events of the agent's standard output,
  and the \<^verbatim>\<open>error\<close> and \<^verbatim>\<open>exit\<close> events of the child process (\<open>ChildError code\<close>
  carries \<^verbatim>\<open>err.code\<close>, \<open>ChildExit code\<close> the exit code or \<^verbatim>\<open>null\<close>).
\<close>

datatype event =
    Tick
  | StdoutData string
  | StdoutEnd
  | ChildError string
  | ChildExit "int option"

text \<open>What a handler does to the outside world, in the order it does it.\<close>

datatype effect =
    ClearInterval
  | StderrWrite string
  | StdoutWrite string
  | FileWrite string
  | FileEnd
  | ConsoleError string
  | ConsoleErrorObject string
  | ProcessExit int

text \<open>
  The state the handlers share: the flag \<^verbatim>\<open>firstChunk\<close>, the counter
  \<^verbatim>\<open>spinnerIndex\<close>, whether the interval timer is still registered, and the exit code
  of the host process once \<^verbatim>\<open>process.exit\<close> has been called (no handler runs after it).
\<close>

record supervisor =
  firstChunk :: bool
  spinnerIndex :: nat
  spinner_running :: bool
  host_exit :: "int option"

definition spinnerFrames :: "string list" where
  "spinnerFrames = [''|'', ''/'', ''-'', [CHR 0x5C]]"

text \<open>\<^verbatim>\<open>'\r   \r'\<close>, the sequence that clears the spinner's line.\<close>

definition clear_line :: string where
  "clear_line = [CHR 0x0D] @ ''   '' @ [CHR 0x0D]"

definition initial_supervisor :: supervisor where
  "initial_supervisor =
     \<lparr>firstChunk = True, spinnerIndex = 0, spinner_running = True, host_exit = None\<rparr>"

text \<open>
  What the timer's callback writes when \<^verbatim>\<open>spinnerIndex\<close> is \<open>k\<close>:
  \<^verbatim>\<open>`\r  ${spinnerFrames[k % spinnerFrames.length]} Working `\<close>.
\<close>

definition spinner_frame :: "nat \<Rightarrow> effect" where
  "spinner_frame k =
     StderrWrite ([CHR 0x0D] @ ''  '' @ spinnerFrames ! (k mod length spinnerFrames) @ '' Working '')"

text \<open>The callback of \<^verbatim>\<open>setInterval\<close>; a cleared timer no longer calls it.\<close>

definition on_tick :: "supervisor \<Rightarrow> effect list \<times> supervisor" where
  "on_tick s =
     (if spinner_running s
      then ([spinner_frame (spinnerIndex s)], s\<lparr>spinnerIndex := spinnerIndex s + 1\<rparr>)
      else ([], s))"

text \<open>\<^verbatim>\<open>child.stdout.on('data', ...)\<close>\<close>

definition on_data :: "string \<Rightarrow> supervisor \<Rightarrow> effect list \<times> supervisor" where
  "on_data chunk s =
     (if firstChunk s
      then ([ClearInterval, StderrWrite clear_line, StdoutWrite chunk, FileWrite chunk],
            s\<lparr>firstChunk := False, spinner_running := False\<rparr>)
      else ([StdoutWrite chunk, FileWrite chunk], s))"

text \<open>\<^verbatim>\<open>child.stdout.on('end', ...)\<close>\<close>

definition on_end :: "supervisor \<Rightarrow> effect list \<times> supervisor" where
  "on_end s =
     (if firstChunk s
      then ([ClearInterval, StderrWrite clear_line, FileEnd], s\<lparr>spinner_running := False\<rparr>)
      else ([StderrWrite clear_line, FileEnd], s))"

text \<open>\<^verbatim>\<open>child.on('error', ...)\<close>\<close>

definition agent_not_found_help :: "effect list" where
  "agent_not_found_help =
     [ConsoleError (CHR 0x0A # ''Agent CLI not found.''),
      ConsoleError ''  If 'agent' works in your terminal, set AGENT_PATH to its full path, e.g.:'',
      ConsoleError ''    PowerShell: $env:AGENT_PATH = (Get-Command agent).Source'',
      ConsoleError ''    Then run this script again from the same terminal.'',
      ConsoleError ''  Or install Cursor CLI: irm 'https://cursor.com/install?win32=true' | iex'']"

definition on_error :: "string \<Rightarrow> supervisor \<Rightarrow> effect list \<times> supervisor" where
  "on_error code s =
     ([ClearInterval, StderrWrite clear_line, FileEnd]
        @ (if code = ''ENOENT'' then agent_not_found_help else [ConsoleErrorObject code])
        @ [ProcessExit 1],
      s\<lparr>spinner_running := False, host_exit := Some 1\<rparr>)"

text \<open>\<^verbatim>\<open>child.on('exit', ...)\<close>; \<^verbatim>\<open>code ?? 0\<close> is \<open>0\<close> for \<^verbatim>\<open>null\<close>.\<close>

definition review_saved :: "string \<Rightarrow> effect" where
  "review_saved outputPath = ConsoleError (CHR 0x0A # ''Review saved to '' @ outputPath)"

definition on_exit :: "string \<Rightarrow> int option \<Rightarrow> supervisor \<Rightarrow> effect list \<times> supervisor" where
  "on_exit outputPath code s =
     (let status = (case code of None \<Rightarrow> 0 | Some c \<Rightarrow> c)
      in ([ClearInterval, StderrWrite clear_line, FileEnd, review_saved outputPath,
           ProcessExit status],
          s\<lparr>spinner_running := False, host_exit := Some status\<rparr>))"

text \<open>One event: the handler registered for it runs, unless the host has exited.\<close>

definition handle :: "string \<Rightarrow> event \<Rightarrow> supervisor \<Rightarrow> effect list \<times> supervisor" where
  "handle outputPath e s =
     (if host_exit s \<noteq> None then ([], s)
      else
        (case e of
           Tick \<Rightarrow> on_tick s
         | StdoutData chunk \<Rightarrow> on_data chunk s
         | StdoutEnd \<Rightarrow> on_end s
         | ChildError code \<Rightarrow> on_error code s
         | ChildExit code \<Rightarrow> on_exit outputPath code s))"

text \<open>A sequence of events, handled in order from a given state.\<close>

fun run_from :: "string \<Rightarrow> event list \<Rightarrow> supervisor \<Rightarrow> effect list \<times> supervisor" where
  "run_from outputPath [] s = ([], s)"
| "run_from outputPath (e # es) s =
     (let (fx, s') = handle outputPath e s;
          (fx', s'') = run_from outputPath es s'
      in (fx @ fx', s''))"

text \<open>One invocation of \<open>runReview\<close>: the events that follow its set-up.\<close>

definition runReview :: "string \<Rightarrow> event list \<Rightarrow> effect list \<times> supervisor" where
  "runReview outputPath events = run_from outputPath events initial_supervisor"

text \<open>
  The events of the agent's output stream and of the timer, as opposed to the two events
  (\<^verbatim>\<open>error\<close>, \<^verbatim>\<open>exit\<close>) whose handlers end the host process.
\<close>

fun is_stream_event :: "event \<Rightarrow> bool" where
  "is_stream_event Tick = True"
| "is_stream_event (StdoutData chunk) = True"
| "is_stream_event StdoutEnd = True"
| "is_stream_event (ChildError code) = False"
| "is_stream_event (ChildExit code) = False"

section \<open>Concrete inputs\<close>

text \<open>
  An environment, a provider and a file system for evaluating the resolution of pull
  request 182370: the provider answers the one request the code makes for it with the
  document of that pull request, and any other request with 404.
\<close>

definition example_env :: env where
  "example_env =
     [''AZURE_ORG_URL'' \<mapsto> ''https://dev.azure.com/Org'', ''AZURE_PROJECT'' \<mapsto> ''Proj'',
      ''AZURE_PAT'' \<mapsto> ''token'']"

definition example_fetch :: "string \<Rightarrow> string \<Rightarrow> fetch_result" where
  "example_fetch url credentials =
     (if url = ''https://dev.azure.com/Org/Proj/_apis/git/pullrequests/182370?api-version=7.0''
         \<and> credentials = '':token''
      then Fetched \<lparr>resp_ok = True, resp_status = 200, resp_statusText = ''OK'',
                    resp_json = Some \<lparr>json_pullRequestId = 182370,
                                      json_repository_name = ''Repo'',
                                      json_sourceRefName = ''refs/heads/feature/y'',
                                      json_targetRefName = ''refs/heads/main''\<rparr>\<rparr>
      else Fetched \<lparr>resp_ok = False, resp_status = 404, resp_statusText = ''Not Found'',
                    resp_json = None\<rparr>)"

definition example_existsSync :: "string \<Rightarrow> bool" where
  "example_existsSync path = (path = ''/code/repos/Repo'')"

text \<open>A diff command that fails after printing part of its output, and one that fails silently.\<close>

definition exec_partial :: "string \<Rightarrow> string \<Rightarrow> exec_result" where
  "exec_partial command cwd = ExecFailed (Some ''diff --git a/x b/x'') ''Command failed''"

definition exec_silent :: "string \<Rightarrow> string \<Rightarrow> exec_result" where
  "exec_silent command cwd = ExecFailed (Some []) ''Command failed''"

text \<open>
  A repository in which only two diff commands succeed: the one between the remote-tracking
  references of \<^verbatim>\<open>main\<close> and \<^verbatim>\<open>feature/x\<close>, and the one between \<^verbatim>\<open>origin/main\<close> and
  the full reference \<^verbatim>\<open>refs/heads/feature/x\<close>. Every other command, the one between the
  plain names \<^verbatim>\<open>main...feature/x\<close> included, fails without output.
\<close>

definition exec_remote_only :: "string \<Rightarrow> string \<Rightarrow> exec_result" where
  "exec_remote_only command cwd =
     (if command = ''git diff origin/main...origin/feature/x'' \<and> cwd = ''/code/repos/Repo''
      then ExecOk ''diff of the remote branches''
      else if command = ''git diff origin/main...refs/heads/feature/x'' \<and> cwd = ''/code/repos/Repo''
      then ExecOk ''diff against the full reference''
      else ExecFailed None ''unknown revision'')"

section \<open>Verified properties\<close>

subsection \<open>parsePrUrl\<close>

lemma indexOf_bounds: "- 1 \<le> indexOf xs x \<and> indexOf xs x < int (length xs)"
  by (induction xs) auto

text \<open>Past the two guards of \<open>parsePrUrl\<close>, the array reads are in range.\<close>

lemma parsePrUrl_reads_in_range:
  "indexOf xs m \<noteq> - 1 \<Longrightarrow> \<not> indexOf xs m \<ge> int (length xs) - 1 \<Longrightarrow>
     nat (indexOf xs m + 1) < length xs \<and> 2 \<le> length xs"
  using indexOf_bounds [of xs m] by auto

lemma after_first_indexOf:
  "after_first m xs =
     (if indexOf xs m = - 1 \<or> indexOf xs m \<ge> int (length xs) - 1 then None
      else Some (xs ! nat (indexOf xs m + 1)))"
proof (induction m xs rule: after_first.induct)
  case (1 m)
  show ?case by simp
next
  case (2 m x)
  show ?case by simp
next
  case (3 m x y ys)
  have b: "- 1 \<le> indexOf (y # ys) m \<and> indexOf (y # ys) m < int (length (y # ys))"
    by (rule indexOf_bounds)
  show ?case
  proof (cases "x = m")
    case True
    then show ?thesis by simp
  next
    case False
    with 3 b show ?thesis
      by (auto simp: nat_add_distrib)
  qed
qed

text \<open>
  \<open>parsePrUrl\<close> without indices: the identifier is the segment after the first
  \<^verbatim>\<open>pullrequest\<close> segment, the repository the segment after the first \<^verbatim>\<open>_git\<close>
  segment, the organisation and the project the first two segments.
\<close>

lemma parsePrUrl_after_first:
  "parsePrUrl url_pathname url =
     (if js_includes (js_trim url) ''dev.azure.com'' \<and> js_includes (js_trim url) ''pullrequest''
      then (case url_pathname (js_trim url) of
              None \<Rightarrow> None
            | Some pathname \<Rightarrow>
               (case after_first ''pullrequest'' (pathParts_of pathname) of
                  None \<Rightarrow> None
                | Some ident \<Rightarrow>
                   (case after_first ''_git'' (pathParts_of pathname) of
                      None \<Rightarrow> None
                    | Some repo \<Rightarrow>
                        Some \<lparr>url_org = pathParts_of pathname ! 0,
                              url_project = pathParts_of pathname ! 1,
                              url_repository = repo, url_prId = ident\<rparr>)))
      else None)"
proof (cases "url_pathname (js_trim url)")
  case None
  then show ?thesis by (simp add: parsePrUrl_def Let_def)
next
  case (Some pathname)
  have len: "indexOf (pathParts_of pathname) ''_git'' \<noteq> - 1 \<Longrightarrow>
      \<not> indexOf (pathParts_of pathname) ''_git'' \<ge> int (length (pathParts_of pathname)) - 1 \<Longrightarrow>
      \<not> length (pathParts_of pathname) < 2"
    using parsePrUrl_reads_in_range [of "pathParts_of pathname" "''_git''"] by simp
  have pr: "after_first ''pullrequest'' (pathParts_of pathname) =
     (if indexOf (pathParts_of pathname) ''pullrequest'' = - 1 \<or>
         indexOf (pathParts_of pathname) ''pullrequest'' \<ge> int (length (pathParts_of pathname)) - 1
      then None
      else Some (pathParts_of pathname ! nat (indexOf (pathParts_of pathname) ''pullrequest'' + 1)))"
    by (rule after_first_indexOf)
  have gi: "after_first ''_git'' (pathParts_of pathname) =
     (if indexOf (pathParts_of pathname) ''_git'' = - 1 \<or>
         indexOf (pathParts_of pathname) ''_git'' \<ge> int (length (pathParts_of pathname)) - 1
      then None
      else Some (pathParts_of pathname ! nat (indexOf (pathParts_of pathname) ''_git'' + 1)))"
    by (rule after_first_indexOf)
  show ?thesis
    using len by (simp add: parsePrUrl_def Let_def Some pr gi del: indexOf.simps)
qed

lemma after_first_Some_length: "after_first m xs = Some y \<Longrightarrow> 2 \<le> length xs"
  by (induction m xs rule: after_first.induct) (auto split: if_splits)

lemma parsePrUrl_fixed_shape:
  assumes "js_includes (js_trim url) ''dev.azure.com''" "js_includes (js_trim url) ''pullrequest''"
    "url_pathname (js_trim url) = Some pathname"
    "pathParts_of pathname = [org, project, ''_git'', repo, ''pullrequest'', ident]"
    "org \<noteq> ''_git''" "org \<noteq> ''pullrequest''"
    "project \<noteq> ''_git''" "project \<noteq> ''pullrequest''" "repo \<noteq> ''pullrequest''"
  shows "parsePrUrl url_pathname url =
          Some \<lparr>url_org = org, url_project = project, url_repository = repo, url_prId = ident\<rparr>"
  using assms by (simp add: parsePrUrl_after_first)

lemma parsePrUrl_None_iff:
  "parsePrUrl url_pathname url = None \<longleftrightarrow>
        (\<not> js_includes (js_trim url) ''dev.azure.com'' \<or>
         \<not> js_includes (js_trim url) ''pullrequest'' \<or>
         (case url_pathname (js_trim url) of
            None \<Rightarrow> True
          | Some p \<Rightarrow> after_first ''pullrequest'' (pathParts_of p) = None \<or>
                      after_first ''_git'' (pathParts_of p) = None))"
  by (auto simp: parsePrUrl_after_first split: option.splits)

lemma parsePrUrl_Some_segments:
  assumes r: "parsePrUrl url_pathname url = Some r"
  shows "\<exists>p. url_pathname (js_trim url) = Some p \<and>
             after_first ''pullrequest'' (pathParts_of p) = Some (url_prId r) \<and>
             after_first ''_git'' (pathParts_of p) = Some (url_repository r) \<and>
             2 \<le> length (pathParts_of p) \<and>
             url_org r = pathParts_of p ! 0 \<and> url_project r = pathParts_of p ! 1"
proof -
  from r obtain p where p: "url_pathname (js_trim url) = Some p"
    by (cases "url_pathname (js_trim url)") (simp_all add: parsePrUrl_after_first split: if_splits)
  from r p obtain ident where i: "after_first ''pullrequest'' (pathParts_of p) = Some ident"
    by (cases "after_first ''pullrequest'' (pathParts_of p)")
       (simp_all add: parsePrUrl_after_first split: if_splits)
  from r p i obtain repo where g: "after_first ''_git'' (pathParts_of p) = Some repo"
    by (cases "after_first ''_git'' (pathParts_of p)")
       (simp_all add: parsePrUrl_after_first split: if_splits)
  from r p i g have "r = \<lparr>url_org = pathParts_of p ! 0, url_project = pathParts_of p ! 1,
                              url_repository = repo, url_prId = ident\<rparr>"
    by (simp add: parsePrUrl_after_first split: if_splits)
  with p i g after_first_Some_length [OF g] show ?thesis by simp
qed

text \<open>
  Claim C1, as amended. \<open>parsePrUrl\<close> is total: it returns a result or \<^verbatim>\<open>null\<close> and never
  throws. When the trimmed input contains \<^verbatim>\<open>dev.azure.com\<close> and \<^verbatim>\<open>pullrequest\<close>, the URL
  parses, and the non-empty segments of its path are exactly
  \<^verbatim>\<open><org>/<project>/_git/<repository>/pullrequest/<id>\<close> with an organisation and a
  project that are not themselves \<^verbatim>\<open>_git\<close> or \<^verbatim>\<open>pullrequest\<close> and a repository that is
  not \<^verbatim>\<open>pullrequest\<close>, the result is exactly these four segments. The result is \<^verbatim>\<open>null\<close>
  whenever a marker is missing from the input, the URL does not parse, or the path has no
  segment after its first \<^verbatim>\<open>pullrequest\<close> segment or after its first \<^verbatim>\<open>_git\<close> segment.
  Whenever there is a result, its identifier is the segment after the first
  \<^verbatim>\<open>pullrequest\<close> segment, its repository the segment after the first \<^verbatim>\<open>_git\<close> segment,
  and its organisation and project are the first two segments of the path.
\<close>

theorem parsePrUrl_marker_segments:
  "(js_includes (js_trim url) ''dev.azure.com'' \<and> js_includes (js_trim url) ''pullrequest'' \<and>
    url_pathname (js_trim url) = Some pathname \<and>
    pathParts_of pathname = [org, project, ''_git'', repo, ''pullrequest'', ident] \<and>
    org \<noteq> ''_git'' \<and> org \<noteq> ''pullrequest'' \<and>
    project \<noteq> ''_git'' \<and> project \<noteq> ''pullrequest'' \<and> repo \<noteq> ''pullrequest''
    \<longrightarrow> parsePrUrl url_pathname url =
          Some \<lparr>url_org = org, url_project = project, url_repository = repo, url_prId = ident\<rparr>)
   \<and> (\<not> js_includes (js_trim url) ''dev.azure.com'' \<or>
       \<not> js_includes (js_trim url) ''pullrequest'' \<or>
       (case url_pathname (js_trim url) of
          None \<Rightarrow> True
        | Some p \<Rightarrow> after_first ''pullrequest'' (pathParts_of p) = None \<or>
                    after_first ''_git'' (pathParts_of p) = None)
       \<longrightarrow> parsePrUrl url_pathname url = None)
   \<and> (\<forall>r. parsePrUrl url_pathname url = Some r \<longrightarrow>
        (\<exists>p. url_pathname (js_trim url) = Some p \<and>
             after_first ''pullrequest'' (pathParts_of p) = Some (url_prId r) \<and>
             after_first ''_git'' (pathParts_of p) = Some (url_repository r) \<and>
             2 \<le> length (pathParts_of p) \<and>
             url_org r = pathParts_of p ! 0 \<and> url_project r = pathParts_of p ! 1))"
  using parsePrUrl_fixed_shape [of url url_pathname pathname org project repo ident]
    parsePrUrl_None_iff [of url_pathname url]
    parsePrUrl_Some_segments [of url_pathname url]
  by blast

text \<open>
  The example of the source's own comment, with blanks around it, parses to its four
  segments; a URL that ends in the \<^verbatim>\<open>pullrequest\<close> segment is rejected.
\<close>

theorem parsePrUrl_marker_segments_witness:
  "parsePrUrl url_pathname_plain
       ''  https://dev.azure.com/YourOrg/YourProject/_git/YourOrg.YourRepo/pullrequest/12345 '' =
     Some \<lparr>url_org = ''YourOrg'', url_project = ''YourProject'',
           url_repository = ''YourOrg.YourRepo'', url_prId = ''12345''\<rparr>
   \<and> parsePrUrl url_pathname_plain ''https://dev.azure.com/YourOrg/pullrequest'' = None"
proof -
  let ?u = "''  https://dev.azure.com/YourOrg/YourProject/_git/YourOrg.YourRepo/pullrequest/12345 ''"
  let ?p = "''/YourOrg/YourProject/_git/YourOrg.YourRepo/pullrequest/12345''"
  let ?v = "''https://dev.azure.com/YourOrg/pullrequest''"
  have tu: "js_trim ?u =
      ''https://dev.azure.com/YourOrg/YourProject/_git/YourOrg.YourRepo/pullrequest/12345''"
    by (simp add: js_trim_def is_space_def)
  have shape: "js_includes (js_trim ?u) ''dev.azure.com'' \<and>
      js_includes (js_trim ?u) ''pullrequest'' \<and>
      url_pathname_plain (js_trim ?u) = Some ?p \<and>
      pathParts_of ?p =
        [''YourOrg'', ''YourProject'', ''_git'', ''YourOrg.YourRepo'', ''pullrequest'', ''12345''] \<and>
      ''YourOrg'' \<noteq> ''_git'' \<and> ''YourOrg'' \<noteq> ''pullrequest'' \<and>
      ''YourProject'' \<noteq> ''_git'' \<and> ''YourProject'' \<noteq> ''pullrequest'' \<and>
      ''YourOrg.YourRepo'' \<noteq> ''pullrequest''"
    unfolding tu by (simp add: js_startsWith_def url_pathname_plain_def pathParts_of_def)
  have first: "parsePrUrl url_pathname_plain ?u =
     Some \<lparr>url_org = ''YourOrg'', url_project = ''YourProject'',
           url_repository = ''YourOrg.YourRepo'', url_prId = ''12345''\<rparr>"
    by (rule parsePrUrl_marker_segments [of ?u url_pathname_plain ?p "''YourOrg''"
          "''YourProject''" "''YourOrg.YourRepo''" "''12345''", THEN conjunct1, THEN mp, OF shape])
  have tv: "js_trim ?v = ?v"
    by (simp add: js_trim_def is_space_def)
  have short: "\<not> js_includes (js_trim ?v) ''dev.azure.com'' \<or>
         \<not> js_includes (js_trim ?v) ''pullrequest'' \<or>
         (case url_pathname_plain (js_trim ?v) of
            None \<Rightarrow> True
          | Some p \<Rightarrow> after_first ''pullrequest'' (pathParts_of p) = None \<or>
                      after_first ''_git'' (pathParts_of p) = None)"
    unfolding tv by (simp add: js_startsWith_def url_pathname_plain_def pathParts_of_def)
  have second: "parsePrUrl url_pathname_plain ?v = None"
    by (rule parsePrUrl_marker_segments [of ?v url_pathname_plain, THEN conjunct2,
          THEN conjunct1, THEN mp, OF short])
  from first second show ?thesis by (rule conjI)
qed

text \<open>
  Claim C1 as stated fails. A URL whose path lacks the project segment is not rejected:
  \<open>parsePrUrl\<close> takes \<^verbatim>\<open>_git\<close> for the project. And a path of the fixed shape is read wrongly
  when its organisation is named \<^verbatim>\<open>_git\<close> (the repository becomes the project), its
  project is named \<^verbatim>\<open>pullrequest\<close> (the identifier becomes \<^verbatim>\<open>_git\<close>) or its repository
  is named \<^verbatim>\<open>pullrequest\<close> (the identifier becomes \<^verbatim>\<open>pullrequest\<close>).
\<close>

theorem parsePrUrl_missing_project_counterexample:
  "pathParts_of ''/a/_git/b/pullrequest/1'' = [''a'', ''_git'', ''b'', ''pullrequest'', ''1'']
   \<and> url_pathname_plain ''https://dev.azure.com/a/_git/b/pullrequest/1'' =
        Some ''/a/_git/b/pullrequest/1''
   \<and> parsePrUrl url_pathname_plain ''https://dev.azure.com/a/_git/b/pullrequest/1'' =
        Some \<lparr>url_org = ''a'', url_project = ''_git'', url_repository = ''b'', url_prId = ''1''\<rparr>
   \<and> parsePrUrl url_pathname_plain ''https://dev.azure.com/_git/p/_git/r/pullrequest/1'' =
        Some \<lparr>url_org = ''_git'', url_project = ''p'', url_repository = ''p'', url_prId = ''1''\<rparr>
   \<and> parsePrUrl url_pathname_plain ''https://dev.azure.com/o/pullrequest/_git/r/pullrequest/1'' =
        Some \<lparr>url_org = ''o'', url_project = ''pullrequest'', url_repository = ''r'',
              url_prId = ''_git''\<rparr>
   \<and> parsePrUrl url_pathname_plain ''https://dev.azure.com/o/p/_git/pullrequest/pullrequest/1'' =
        Some \<lparr>url_org = ''o'', url_project = ''p'', url_repository = ''pullrequest'',
              url_prId = ''pullrequest''\<rparr>"
  by (simp add: parsePrUrl_def Let_def js_trim_def is_space_def js_startsWith_def
      url_pathname_plain_def pathParts_of_def)

subsection \<open>Resolution of a pull request\<close>

lemma getPrDetails_Inr:
  assumes "getPrDetails fetch env ident orgUrlOverride projectOverride = Inr d"
  shows "\<exists>url cred response data.
           fetch url cred = Fetched response \<and> resp_json response = Some data \<and>
           repository d = json_repository_name data \<and>
           sourceBranch d = stripRefsHeads (json_sourceRefName data) \<and>
           targetBranch d = stripRefsHeads (json_targetRefName data) \<and>
           pullRequestId d = json_pullRequestId data"
  using assms unfolding getPrDetails_def Let_def
  by (auto split: option.splits if_splits fetch_result.splits prod.splits; blast)

lemma stripRefsHeads_prefixed: "stripRefsHeads (''refs/heads/'' @ b) = b"
  by (simp add: stripRefsHeads_def REFS_HEADS_def js_startsWith_def)

lemma stripRefsHeads_other: "\<not> js_startsWith r ''refs/heads/'' \<Longrightarrow> stripRefsHeads r = r"
  by (simp add: stripRefsHeads_def REFS_HEADS_def)

lemma resolve_pr_Inr:
  assumes "resolve_pr url_pathname fetch path_join existsSync env reposRoot prIdOrUrl = Inr t"
  shows "\<exists>url cred response data.
         fetch url cred = Fetched response \<and> resp_json response = Some data \<and>
         rt_baseBranch t = stripRefsHeads (json_targetRefName data) \<and>
         rt_headBranch t = stripRefsHeads (json_sourceRefName data) \<and>
         rt_prId t = Some (json_pullRequestId data) \<and>
         rt_repoName t =
           (case parsePrUrl url_pathname prIdOrUrl of
              Some parsed \<Rightarrow> url_repository parsed
            | None \<Rightarrow> json_repository_name data) \<and>
         rt_repoPath t = path_join reposRoot (rt_repoName t)"
proof (cases "parsePrUrl url_pathname prIdOrUrl")
  case None
  with assms obtain d where d: "getPrDetails fetch env prIdOrUrl None None = Inr d"
    and t: "t = \<lparr>rt_repoPath = path_join reposRoot (repository d),
                 rt_baseBranch = targetBranch d, rt_headBranch = sourceBranch d,
                 rt_prId = Some (pullRequestId d), rt_repoName = repository d\<rparr>"
    unfolding resolve_pr_def Let_def
    by (auto split: if_splits sum.splits)
  from getPrDetails_Inr [OF d] t None show ?thesis by auto
next
  case (Some parsed)
  with assms obtain d where d: "getPrDetails fetch env (url_prId parsed)
                         (Some (''https://dev.azure.com/'' @ url_org parsed))
                         (Some (url_project parsed)) = Inr d"
    and t: "t = \<lparr>rt_repoPath = path_join reposRoot (url_repository parsed),
                 rt_baseBranch = targetBranch d, rt_headBranch = sourceBranch d,
                 rt_prId = Some (pullRequestId d), rt_repoName = url_repository parsed\<rparr>"
    unfolding resolve_pr_def Let_def
    by (auto split: if_splits sum.splits)
  from getPrDetails_Inr [OF d] t Some show ?thesis by auto
qed

text \<open>
  Claim C3. Whenever the resolution of a pull request, given by identifier or by URL,
  succeeds, the provider has answered a request with a document, and the resolved base
  branch is that document's \<^verbatim>\<open>targetRefName\<close> without a leading \<^verbatim>\<open>refs/heads/\<close>, the
  resolved head branch its \<^verbatim>\<open>sourceRefName\<close> without that prefix, and the repository path
  is \<^verbatim>\<open>path.join(reposRoot, repoName)\<close>, where the repository name is the one in the URL
  when a URL was given and the one in the document otherwise. Stripping removes the prefix
  \<^verbatim>\<open>refs/heads/\<close> when the reference starts with it and changes nothing otherwise, so
  \<^verbatim>\<open>refs/heads/feature/y\<close> and \<^verbatim>\<open>refs/heads/main\<close> resolve to \<^verbatim>\<open>feature/y\<close> and \<^verbatim>\<open>main\<close>.
\<close>

theorem resolve_pr_strips_refs_heads:
  "(resolve_pr url_pathname fetch path_join existsSync env reposRoot prIdOrUrl = Inr t \<longrightarrow>
      (\<exists>url cred response data.
         fetch url cred = Fetched response \<and> resp_json response = Some data \<and>
         rt_baseBranch t = stripRefsHeads (json_targetRefName data) \<and>
         rt_headBranch t = stripRefsHeads (json_sourceRefName data) \<and>
         rt_prId t = Some (json_pullRequestId data) \<and>
         rt_repoName t =
           (case parsePrUrl url_pathname prIdOrUrl of
              Some parsed \<Rightarrow> url_repository parsed
            | None \<Rightarrow> json_repository_name data) \<and>
         rt_repoPath t = path_join reposRoot (rt_repoName t)))
   \<and> stripRefsHeads (''refs/heads/'' @ b) = b
   \<and> (\<not> js_startsWith r ''refs/heads/'' \<longrightarrow> stripRefsHeads r = r)
   \<and> stripRefsHeads ''refs/heads/feature/y'' = ''feature/y''
   \<and> stripRefsHeads ''refs/heads/main'' = ''main''"
  using resolve_pr_Inr [of url_pathname fetch path_join existsSync env reposRoot prIdOrUrl t]
    stripRefsHeads_prefixed [of b] stripRefsHeads_other [of r]
    stripRefsHeads_prefixed [of "''feature/y''"] stripRefsHeads_prefixed [of "''main''"]
  by simp

text \<open>
  Pull request 182370, given by its identifier, with the branches of the scenario: the
  resolution succeeds with base \<^verbatim>\<open>main\<close>, head \<^verbatim>\<open>feature/y\<close> and the repository under
  the repositories' root.
\<close>

theorem resolve_pr_strips_refs_heads_witness:
  "resolve_pr url_pathname_plain example_fetch path_join_plain example_existsSync example_env
       ''/code/repos'' ''182370'' =
     Inr \<lparr>rt_repoPath = ''/code/repos/Repo'', rt_baseBranch = ''main'',
          rt_headBranch = ''feature/y'', rt_prId = Some 182370, rt_repoName = ''Repo''\<rparr>
   \<and> (\<exists>url cred response data.
         example_fetch url cred = Fetched response \<and> resp_json response = Some data \<and>
         ''main'' = stripRefsHeads (json_targetRefName data) \<and>
         ''feature/y'' = stripRefsHeads (json_sourceRefName data))"
proof -
  let ?t = "\<lparr>rt_repoPath = ''/code/repos/Repo'', rt_baseBranch = ''main'',
          rt_headBranch = ''feature/y'', rt_prId = Some 182370, rt_repoName = ''Repo''\<rparr>"
  have no_url: "parsePrUrl url_pathname_plain ''182370'' = None"
    by (simp add: parsePrUrl_def Let_def js_trim_def is_space_def js_startsWith_def)
  have config: "getAzureConfig example_env =
      \<lparr>cfg_orgUrl = Some ''https://dev.azure.com/Org'', cfg_project = Some ''Proj'',
       cfg_pat = Some ''token''\<rparr>"
    by (simp add: getAzureConfig_def example_env_def js_or_def truthy_def)
  have details: "getPrDetails example_fetch example_env ''182370'' None None =
      Inr \<lparr>repository = ''Repo'', sourceBranch = ''feature/y'', targetBranch = ''main'',
           pullRequestId = 182370\<rparr>"
    by (simp add: getPrDetails_def config strip_trailing_slash_def js_trim_def is_space_def
        example_fetch_def stripRefsHeads_def REFS_HEADS_def js_startsWith_def)
  have run: "resolve_pr url_pathname_plain example_fetch path_join_plain example_existsSync
       example_env ''/code/repos'' ''182370'' = Inr ?t"
    by (simp add: resolve_pr_def no_url isAzureConfigured_def config truthy_def details
        path_join_plain_def example_existsSync_def)
  from resolve_pr_strips_refs_heads [of url_pathname_plain example_fetch path_join_plain
      example_existsSync example_env "''/code/repos''" "''182370''" ?t, THEN conjunct1, THEN mp,
      OF run]
  have "\<exists>url cred response data.
         example_fetch url cred = Fetched response \<and> resp_json response = Some data \<and>
         ''main'' = stripRefsHeads (json_targetRefName data) \<and>
         ''feature/y'' = stripRefsHeads (json_sourceRefName data)"
    by simp blast
  with run show ?thesis by (rule conjI)
qed

subsection \<open>getAzureConfig\<close>

lemma js_or_first: "a = Some v \<Longrightarrow> v \<noteq> [] \<Longrightarrow> js_or a b = Some v"
  by (simp add: js_or_def truthy_def)

lemma js_or_second: "\<not> truthy a \<Longrightarrow> js_or a b = b"
  by (simp add: js_or_def)

text \<open>
  Claim C10, as amended. A variable of the first naming (\<^verbatim>\<open>AZURE_ORG_URL\<close>,
  \<^verbatim>\<open>AZURE_PROJECT\<close>, \<^verbatim>\<open>AZURE_PAT\<close>) that is set to a non-empty value wins over its
  \<^verbatim>\<open>AZURE_DEVOPS_\<close> counterpart, whatever that one holds. When the first variable is
  unset, the counterpart is used: \<^verbatim>\<open>AZURE_DEVOPS_ORG\<close>, when non-empty, expanded to
  \<^verbatim>\<open>https://dev.azure.com/<org>\<close>, and \<^verbatim>\<open>AZURE_DEVOPS_PROJECT\<close> and
  \<^verbatim>\<open>AZURE_DEVOPS_PAT\<close> as they are.
\<close>

theorem getAzureConfig_precedence:
  "(env ''AZURE_ORG_URL'' = Some u \<and> u \<noteq> [] \<longrightarrow> cfg_orgUrl (getAzureConfig env) = Some u)
   \<and> (env ''AZURE_ORG_URL'' = None \<and> env ''AZURE_DEVOPS_ORG'' = Some n \<and> n \<noteq> [] \<longrightarrow>
        cfg_orgUrl (getAzureConfig env) = Some (''https://dev.azure.com/'' @ n))
   \<and> (env ''AZURE_PROJECT'' = Some p \<and> p \<noteq> [] \<longrightarrow> cfg_project (getAzureConfig env) = Some p)
   \<and> (env ''AZURE_PROJECT'' = None \<longrightarrow>
        cfg_project (getAzureConfig env) = env ''AZURE_DEVOPS_PROJECT'')
   \<and> (env ''AZURE_PAT'' = Some k \<and> k \<noteq> [] \<longrightarrow> cfg_pat (getAzureConfig env) = Some k)
   \<and> (env ''AZURE_PAT'' = None \<longrightarrow> cfg_pat (getAzureConfig env) = env ''AZURE_DEVOPS_PAT'')"
  by (simp add: getAzureConfig_def Let_def js_or_first js_or_second truthy_def)

text \<open>With both namings set to different non-empty values, the first naming is used throughout.\<close>

theorem getAzureConfig_precedence_witness:
  "getAzureConfig
     [''AZURE_ORG_URL'' \<mapsto> ''https://dev.azure.com/First'', ''AZURE_DEVOPS_ORG'' \<mapsto> ''Second'',
      ''AZURE_PROJECT'' \<mapsto> ''P1'', ''AZURE_DEVOPS_PROJECT'' \<mapsto> ''P2'',
      ''AZURE_PAT'' \<mapsto> ''k1'', ''AZURE_DEVOPS_PAT'' \<mapsto> ''k2''] =
   \<lparr>cfg_orgUrl = Some ''https://dev.azure.com/First'', cfg_project = Some ''P1'',
    cfg_pat = Some ''k1''\<rparr>"
proof -
  let ?env = "[''AZURE_ORG_URL'' \<mapsto> ''https://dev.azure.com/First'',
      ''AZURE_DEVOPS_ORG'' \<mapsto> ''Second'',
      ''AZURE_PROJECT'' \<mapsto> ''P1'', ''AZURE_DEVOPS_PROJECT'' \<mapsto> ''P2'',
      ''AZURE_PAT'' \<mapsto> ''k1'', ''AZURE_DEVOPS_PAT'' \<mapsto> ''k2'']"
  have org: "?env ''AZURE_ORG_URL'' = Some ''https://dev.azure.com/First'' \<and>
      ''https://dev.azure.com/First'' \<noteq> []"
    by simp
  have proj: "?env ''AZURE_PROJECT'' = Some ''P1'' \<and> ''P1'' \<noteq> []"
    by simp
  have pat: "?env ''AZURE_PAT'' = Some ''k1'' \<and> ''k1'' \<noteq> []"
    by simp
  note all = getAzureConfig_precedence [of ?env "''https://dev.azure.com/First''" "''Second''"
      "''P1''" "''k1''"]
  have "cfg_orgUrl (getAzureConfig ?env) = Some ''https://dev.azure.com/First''"
    by (rule all [THEN conjunct1, THEN mp, OF org])
  moreover have "cfg_project (getAzureConfig ?env) = Some ''P1''"
    by (rule all [THEN conjunct2, THEN conjunct2, THEN conjunct1, THEN mp, OF proj])
  moreover have "cfg_pat (getAzureConfig ?env) = Some ''k1''"
    by (rule all [THEN conjunct2, THEN conjunct2, THEN conjunct2, THEN conjunct2, THEN conjunct1,
          THEN mp, OF pat])
  ultimately show ?thesis
    by (cases "getAzureConfig ?env") simp
qed

text \<open>
  Claim C10 as stated fails when the first naming is set to the empty string, as a blank
  line \<^verbatim>\<open>AZURE_ORG_URL=\<close> of the \<^verbatim>\<open>.env\<close> file sets it: both namings are set, and the
  \<^verbatim>\<open>AZURE_DEVOPS_\<close> value is the one used.
\<close>

theorem getAzureConfig_empty_first_counterexample:
  "getAzureConfig
     [''AZURE_ORG_URL'' \<mapsto> [], ''AZURE_DEVOPS_ORG'' \<mapsto> ''Second'',
      ''AZURE_PROJECT'' \<mapsto> [], ''AZURE_DEVOPS_PROJECT'' \<mapsto> ''P2'',
      ''AZURE_PAT'' \<mapsto> [], ''AZURE_DEVOPS_PAT'' \<mapsto> ''k2''] =
   \<lparr>cfg_orgUrl = Some ''https://dev.azure.com/Second'', cfg_project = Some ''P2'',
    cfg_pat = Some ''k2''\<rparr>"
  by (simp add: getAzureConfig_def js_or_def truthy_def)

subsection \<open>Artifact file names\<close>

lemma sanitizeBranchForFile_map:
  "sanitizeBranchForFile branch =
     map (\<lambda>c. if c = CHR ''/'' \<or> c = CHR 0x5C \<or> is_space c then CHR ''_'' else c) branch"
  by (simp add: sanitizeBranchForFile_def is_space_def)

lemma sanitizeBranchForFile_clean:
  "c \<in> set (sanitizeBranchForFile branch) \<Longrightarrow> c \<noteq> CHR ''/'' \<and> c \<noteq> CHR 0x5C \<and> \<not> is_space c"
  by (auto simp: sanitizeBranchForFile_map is_space_def split: if_splits)

text \<open>
  Claim C2, as amended. The two file names are functions of the pull request number, the
  output directory and the two branch names alone, so equal inputs give equal names. When
  the pull request number is present and not zero, the names are
  \<^verbatim>\<open>.<prId>.codehermit-diff.txt\<close> and \<^verbatim>\<open>.<prId>.codehermit-output.md\<close>. When it is
  absent and an output directory is given that is not the empty string, they embed
  \<^verbatim>\<open><base>_<head>\<close> with every \<^verbatim>\<open>/\<close>, every backslash and every whitespace character
  of the two branch names replaced by \<^verbatim>\<open>_\<close> and all other characters kept, so that the
  embedded branch names contain no separator and no whitespace. When both are absent, the
  names are \<^verbatim>\<open>.codehermit-diff.txt\<close> and \<^verbatim>\<open>.codehermit-output.md\<close>.
\<close>

theorem artifact_names_policy:
  "(prId = prId' \<and> outputDir = outputDir' \<and> base = base' \<and> head = head' \<longrightarrow>
      diffFileName prId outputDir base head = diffFileName prId' outputDir' base' head' \<and>
      outputFileName prId outputDir base head = outputFileName prId' outputDir' base' head')
   \<and> (prId = Some n \<and> n \<noteq> 0 \<longrightarrow>
        diffFileName prId outputDir base head = ''.'' @ number_to_string n @ ''.codehermit-diff.txt'' \<and>
        outputFileName prId outputDir base head = ''.'' @ number_to_string n @ ''.codehermit-output.md'')
   \<and> (prId = None \<and> outputDir = Some dir \<and> dir \<noteq> [] \<longrightarrow>
        diffFileName prId outputDir base head =
          ''.'' @ sanitizeBranchForFile base @ ''_'' @ sanitizeBranchForFile head
            @ ''.codehermit-diff.txt'' \<and>
        outputFileName prId outputDir base head =
          ''.'' @ sanitizeBranchForFile base @ ''_'' @ sanitizeBranchForFile head
            @ ''.codehermit-output.md'')
   \<and> (prId = None \<and> outputDir = None \<longrightarrow>
        diffFileName prId outputDir base head = ''.codehermit-diff.txt'' \<and>
        outputFileName prId outputDir base head = ''.codehermit-output.md'')
   \<and> sanitizeBranchForFile branch =
        map (\<lambda>c. if c = CHR ''/'' \<or> c = CHR 0x5C \<or> is_space c then CHR ''_'' else c) branch
   \<and> (\<forall>c \<in> set (sanitizeBranchForFile branch). c \<noteq> CHR ''/'' \<and> c \<noteq> CHR 0x5C \<and> \<not> is_space c)"
proof (intro conjI impI ballI)
  fix c
  assume "c \<in> set (sanitizeBranchForFile branch)"
  then show "c \<noteq> CHR ''/''" "c \<noteq> CHR 0x5C" "\<not> is_space c"
    using sanitizeBranchForFile_clean [of c branch] by simp_all
next
  show "sanitizeBranchForFile branch =
        map (\<lambda>c. if c = CHR ''/'' \<or> c = CHR 0x5C \<or> is_space c then CHR ''_'' else c) branch"
    by (rule sanitizeBranchForFile_map)
qed (auto simp: diffFileName_def outputFileName_def truthy_number_def truthy_def
      template_number_def DIFF_FILE_BASE_def OUTPUT_FILE_BASE_def)

text \<open>
  Pull request 182370 gives names with \<^verbatim>\<open>.182370.\<close>; the branches \<^verbatim>\<open>main\<close> and
  \<^verbatim>\<open>feature/z\<close> with an output directory give the slug \<^verbatim>\<open>main_feature_z\<close>; without
  either, the names are the fixed ones.
\<close>

theorem artifact_names_policy_witness:
  "diffFileName (Some 182370) None ''main'' ''feature/y'' = ''.182370.codehermit-diff.txt''
   \<and> outputFileName (Some 182370) None ''main'' ''feature/y'' = ''.182370.codehermit-output.md''
   \<and> diffFileName None (Some ''./Reviews'') ''main'' ''feature/z'' =
        ''.main_feature_z.codehermit-diff.txt''
   \<and> outputFileName None (Some ''./Reviews'') ''main'' ''feature/z'' =
        ''.main_feature_z.codehermit-output.md''
   \<and> diffFileName None None ''main'' ''feature/x'' = ''.codehermit-diff.txt''
   \<and> outputFileName None None ''main'' ''feature/x'' = ''.codehermit-output.md''"
proof -
  have num: "number_to_string 182370 = ''182370''"
    by (simp add: number_to_string_def string_of_nat.simps digit_char_def)
  have san: "sanitizeBranchForFile ''main'' = ''main''"
    "sanitizeBranchForFile ''feature/z'' = ''feature_z''"
    by (simp_all add: sanitizeBranchForFile_def is_space_def)
  have a: "Some (182370::int) = Some 182370 \<and> (182370::int) \<noteq> 0"
    by simp
  have b: "(None::int option) = None \<and>
      Some ''./Reviews'' = Some ''./Reviews'' \<and> ''./Reviews'' \<noteq> []"
    by simp
  have c: "(None::int option) = None \<and> (None::string option) = None"
    by simp
  from artifact_names_policy [of "Some 182370" "Some 182370" None None "''main''" "''main''"
      "''feature/y''" "''feature/y''" 182370, THEN conjunct2, THEN conjunct1, THEN mp, OF a]
  have one: "diffFileName (Some 182370) None ''main'' ''feature/y'' = ''.182370.codehermit-diff.txt''
      \<and> outputFileName (Some 182370) None ''main'' ''feature/y'' = ''.182370.codehermit-output.md''"
    by (simp add: num)
  from artifact_names_policy [of None None "Some ''./Reviews''" "Some ''./Reviews''" "''main''"
      "''main''" "''feature/z''" "''feature/z''" 0 "''./Reviews''", THEN conjunct2, THEN conjunct2,
      THEN conjunct1, THEN mp, OF b]
  have two: "diffFileName None (Some ''./Reviews'') ''main'' ''feature/z'' =
        ''.main_feature_z.codehermit-diff.txt''
      \<and> outputFileName None (Some ''./Reviews'') ''main'' ''feature/z'' =
        ''.main_feature_z.codehermit-output.md''"
    by (simp add: san)
  from artifact_names_policy [of None None None None "''main''" "''main''" "''feature/x''"
      "''feature/x''", THEN conjunct2, THEN conjunct2, THEN conjunct2, THEN conjunct1, THEN mp,
      OF c]
  have three: "diffFileName None None ''main'' ''feature/x'' = ''.codehermit-diff.txt''
      \<and> outputFileName None None ''main'' ''feature/x'' = ''.codehermit-output.md''"
    by simp
  from one two three show ?thesis by simp
qed

text \<open>
  Claim C2 as stated fails for a pull request number that is present and zero: the test
  \<^verbatim>\<open>prId ? ... : ...\<close> treats it as absent, and the names do not embed \<^verbatim>\<open>.0.\<close>.
  Likewise an output directory that is the empty string counts as not requested.
\<close>

theorem artifact_names_zero_counterexample:
  "diffFileName (Some 0) None ''main'' ''feature/x'' = ''.codehermit-diff.txt''
   \<and> outputFileName (Some 0) None ''main'' ''feature/x'' = ''.codehermit-output.md''
   \<and> \<not> js_includes (diffFileName (Some 0) None ''main'' ''feature/x'') ''.0.''
   \<and> diffFileName (Some 0) (Some ''./Reviews'') ''main'' ''feature/x'' =
        ''.main_feature_x.codehermit-diff.txt''
   \<and> diffFileName None (Some []) ''main'' ''feature/x'' = ''.codehermit-diff.txt''"
  by (simp add: diffFileName_def outputFileName_def truthy_number_def truthy_def
      DIFF_FILE_BASE_def OUTPUT_FILE_BASE_def js_startsWith_def sanitizeBranchForFile_def
      is_space_def)

subsection \<open>Diff acquisition\<close>

text \<open>
  Claim C7. When the diff command fails and the error carries a non-empty captured
  standard output, \<open>getDiffContent\<close> returns that output as the diff text. When it fails
  and nothing was captured (no \<^verbatim>\<open>stdout\<close> on the error, or an empty one), it fails with
  the error \<^verbatim>\<open>Failed to get diff: <message>\<close>. (When the command succeeds, its output is
  the diff text.)
\<close>

theorem getDiffContent_partial_output:
  "(execSync (''git diff '' @ toRef baseRef @ ''...'' @ toRef headRef) repoRoot
        = ExecFailed (Some out) message \<and> out \<noteq> [] \<longrightarrow>
      getDiffContent execSync repoRoot baseRef headRef = Inr out)
   \<and> (execSync (''git diff '' @ toRef baseRef @ ''...'' @ toRef headRef) repoRoot
        = ExecFailed captured message \<and> (captured = None \<or> captured = Some []) \<longrightarrow>
      getDiffContent execSync repoRoot baseRef headRef
        = Inl (DiffError (''Failed to get diff: '' @ message)))
   \<and> (execSync (''git diff '' @ toRef baseRef @ ''...'' @ toRef headRef) repoRoot = ExecOk out \<longrightarrow>
      getDiffContent execSync repoRoot baseRef headRef = Inr out)"
  by (auto simp: getDiffContent_def Let_def)

text \<open>
  A command that fails after printing part of a diff yields that part; one that fails
  without output yields the error.
\<close>

theorem getDiffContent_partial_output_witness:
  "getDiffContent exec_partial ''/code/repos/Repo'' ''main'' ''feature/x'' = Inr ''diff --git a/x b/x''
   \<and> getDiffContent exec_silent ''/code/repos/Repo'' ''main'' ''feature/x''
        = Inl (DiffError ''Failed to get diff: Command failed'')"
proof -
  let ?cmd = "''git diff '' @ toRef ''main'' @ ''...'' @ toRef ''feature/x''"
  have p: "exec_partial ?cmd ''/code/repos/Repo''
      = ExecFailed (Some ''diff --git a/x b/x'') ''Command failed'' \<and> ''diff --git a/x b/x'' \<noteq> []"
    by (simp add: exec_partial_def)
  have s: "exec_silent ?cmd ''/code/repos/Repo'' = ExecFailed (Some []) ''Command failed'' \<and>
      (Some [] = (None::string option) \<or> Some [] = Some ([]::string))"
    by (simp add: exec_silent_def)
  have one: "getDiffContent exec_partial ''/code/repos/Repo'' ''main'' ''feature/x''
      = Inr ''diff --git a/x b/x''"
    by (rule getDiffContent_partial_output [of exec_partial "''main''" "''feature/x''"
          "''/code/repos/Repo''" "''diff --git a/x b/x''" "''Command failed''",
          THEN conjunct1, THEN mp, OF p])
  from getDiffContent_partial_output [of exec_silent "''main''" "''feature/x''"
          "''/code/repos/Repo''" _ "''Command failed''" "Some []",
          THEN conjunct2, THEN conjunct1, THEN mp, OF s]
  have two: "getDiffContent exec_silent ''/code/repos/Repo'' ''main'' ''feature/x''
        = Inl (DiffError ''Failed to get diff: Command failed'')"
    by simp
  from one two show ?thesis by (rule conjI)
qed

lemma toRef_plain:
  "\<not> js_startsWith ref ''origin/'' \<Longrightarrow> \<not> js_startsWith ref ''refs/'' \<Longrightarrow> toRef ref = ''origin/'' @ ref"
  by (simp add: toRef_def)

lemma toRef_kept: "js_startsWith ref ''origin/'' \<or> js_startsWith ref ''refs/'' \<Longrightarrow> toRef ref = ref"
  by (simp add: toRef_def)

lemma getDiffContent_one_command:
  "execSync (''git diff '' @ toRef baseRef @ ''...'' @ toRef headRef) repoRoot
     = execSync' (''git diff '' @ toRef baseRef @ ''...'' @ toRef headRef) repoRoot \<Longrightarrow>
   getDiffContent execSync repoRoot baseRef headRef = getDiffContent execSync' repoRoot baseRef headRef"
  by (simp add: getDiffContent_def Let_def)

text \<open>The diff text is the outcome of the command built from the rewritten names.\<close>

lemma getDiffContent_runs_command:
  "execSync (''git diff '' @ toRef baseRef @ ''...'' @ toRef headRef) repoRoot = ExecOk out \<Longrightarrow>
     getDiffContent execSync repoRoot baseRef headRef = Inr out"
  by (simp add: getDiffContent_def Let_def)

lemma getDiffContent_command_fails:
  "execSync (''git diff '' @ toRef baseRef @ ''...'' @ toRef headRef) repoRoot
     = ExecFailed captured message \<Longrightarrow>
   getDiffContent execSync repoRoot baseRef headRef =
     (case captured of
        Some text \<Rightarrow>
          if text \<noteq> [] then Inr text else Inl (DiffError (''Failed to get diff: '' @ message))
      | None \<Rightarrow> Inl (DiffError (''Failed to get diff: '' @ message)))"
  by (simp add: getDiffContent_def Let_def)

lemma diff_command_plain:
  "\<not> js_startsWith baseRef ''origin/'' \<Longrightarrow> \<not> js_startsWith baseRef ''refs/'' \<Longrightarrow>
   \<not> js_startsWith headRef ''origin/'' \<Longrightarrow> \<not> js_startsWith headRef ''refs/'' \<Longrightarrow>
     ''git diff '' @ toRef baseRef @ ''...'' @ toRef headRef
       = ''git diff origin/'' @ baseRef @ ''...origin/'' @ headRef"
  by (simp add: toRef_plain)

text \<open>
  Claim C9. A branch name that starts with neither \<^verbatim>\<open>origin/\<close> nor \<^verbatim>\<open>refs/\<close> is
  rewritten to \<^verbatim>\<open>origin/<name>\<close>; a name that starts with one of them is used unchanged.
  The diff is computed between the rewritten names: for two plain branch names, what
  \<open>getDiffContent\<close> returns is the outcome, in the repository, of the command
  \<^verbatim>\<open>git diff origin/<base>...origin/<head>\<close>, namely its output when it succeeds, and the
  captured output or the diff error when it fails; for any two names it is the outcome of
  \<^verbatim>\<open>git diff <toRef base>...<toRef head>\<close>. No other command has a part in the result,
  the one between the plain names in particular.
\<close>

theorem getDiffContent_remote_refs:
  "(\<not> js_startsWith ref ''origin/'' \<and> \<not> js_startsWith ref ''refs/'' \<longrightarrow>
      toRef ref = ''origin/'' @ ref)
   \<and> (js_startsWith ref ''origin/'' \<or> js_startsWith ref ''refs/'' \<longrightarrow> toRef ref = ref)
   \<and> (\<not> js_startsWith baseRef ''origin/'' \<and> \<not> js_startsWith baseRef ''refs/'' \<and>
       \<not> js_startsWith headRef ''origin/'' \<and> \<not> js_startsWith headRef ''refs/'' \<and>
       execSync (''git diff origin/'' @ baseRef @ ''...origin/'' @ headRef) repoRoot = ExecOk out
       \<longrightarrow> getDiffContent execSync repoRoot baseRef headRef = Inr out)
   \<and> (\<not> js_startsWith baseRef ''origin/'' \<and> \<not> js_startsWith baseRef ''refs/'' \<and>
       \<not> js_startsWith headRef ''origin/'' \<and> \<not> js_startsWith headRef ''refs/'' \<and>
       execSync (''git diff origin/'' @ baseRef @ ''...origin/'' @ headRef) repoRoot
         = ExecFailed captured message
       \<longrightarrow> getDiffContent execSync repoRoot baseRef headRef =
            (case captured of
               Some text \<Rightarrow>
                 if text \<noteq> [] then Inr text
                 else Inl (DiffError (''Failed to get diff: '' @ message))
             | None \<Rightarrow> Inl (DiffError (''Failed to get diff: '' @ message))))
   \<and> (execSync (''git diff '' @ toRef baseRef @ ''...'' @ toRef headRef) repoRoot = ExecOk out
       \<longrightarrow> getDiffContent execSync repoRoot baseRef headRef = Inr out)
   \<and> (execSync (''git diff '' @ toRef baseRef @ ''...'' @ toRef headRef) repoRoot
         = ExecFailed captured message
       \<longrightarrow> getDiffContent execSync repoRoot baseRef headRef =
            (case captured of
               Some text \<Rightarrow>
                 if text \<noteq> [] then Inr text
                 else Inl (DiffError (''Failed to get diff: '' @ message))
             | None \<Rightarrow> Inl (DiffError (''Failed to get diff: '' @ message))))
   \<and> (execSync (''git diff '' @ toRef baseRef @ ''...'' @ toRef headRef) repoRoot
        = execSync' (''git diff '' @ toRef baseRef @ ''...'' @ toRef headRef) repoRoot \<longrightarrow>
      getDiffContent execSync repoRoot baseRef headRef
        = getDiffContent execSync' repoRoot baseRef headRef)"
proof (intro conjI impI)
  assume "\<not> js_startsWith ref ''origin/'' \<and> \<not> js_startsWith ref ''refs/''"
  then show "toRef ref = ''origin/'' @ ref" by (simp add: toRef_plain)
next
  assume "js_startsWith ref ''origin/'' \<or> js_startsWith ref ''refs/''"
  then show "toRef ref = ref" by (rule toRef_kept)
next
  assume a: "\<not> js_startsWith baseRef ''origin/'' \<and> \<not> js_startsWith baseRef ''refs/'' \<and>
       \<not> js_startsWith headRef ''origin/'' \<and> \<not> js_startsWith headRef ''refs/'' \<and>
       execSync (''git diff origin/'' @ baseRef @ ''...origin/'' @ headRef) repoRoot = ExecOk out"
  then have "''git diff '' @ toRef baseRef @ ''...'' @ toRef headRef
       = ''git diff origin/'' @ baseRef @ ''...origin/'' @ headRef"
    by (intro diff_command_plain) simp_all
  with a have "execSync (''git diff '' @ toRef baseRef @ ''...'' @ toRef headRef) repoRoot = ExecOk out"
    by simp
  then show "getDiffContent execSync repoRoot baseRef headRef = Inr out"
    by (rule getDiffContent_runs_command)
next
  assume a: "\<not> js_startsWith baseRef ''origin/'' \<and> \<not> js_startsWith baseRef ''refs/'' \<and>
       \<not> js_startsWith headRef ''origin/'' \<and> \<not> js_startsWith headRef ''refs/'' \<and>
       execSync (''git diff origin/'' @ baseRef @ ''...origin/'' @ headRef) repoRoot
         = ExecFailed captured message"
  then have "''git diff '' @ toRef baseRef @ ''...'' @ toRef headRef
       = ''git diff origin/'' @ baseRef @ ''...origin/'' @ headRef"
    by (intro diff_command_plain) simp_all
  with a have "execSync (''git diff '' @ toRef baseRef @ ''...'' @ toRef headRef) repoRoot
      = ExecFailed captured message"
    by simp
  then show "getDiffContent execSync repoRoot baseRef headRef =
            (case captured of
               Some text \<Rightarrow>
                 if text \<noteq> [] then Inr text
                 else Inl (DiffError (''Failed to get diff: '' @ message))
             | None \<Rightarrow> Inl (DiffError (''Failed to get diff: '' @ message)))"
    by (rule getDiffContent_command_fails)
next
  assume "execSync (''git diff '' @ toRef baseRef @ ''...'' @ toRef headRef) repoRoot = ExecOk out"
  then show "getDiffContent execSync repoRoot baseRef headRef = Inr out"
    by (rule getDiffContent_runs_command)
next
  assume "execSync (''git diff '' @ toRef baseRef @ ''...'' @ toRef headRef) repoRoot
         = ExecFailed captured message"
  then show "getDiffContent execSync repoRoot baseRef headRef =
            (case captured of
               Some text \<Rightarrow>
                 if text \<noteq> [] then Inr text
                 else Inl (DiffError (''Failed to get diff: '' @ message))
             | None \<Rightarrow> Inl (DiffError (''Failed to get diff: '' @ message)))"
    by (rule getDiffContent_command_fails)
next
  assume "execSync (''git diff '' @ toRef baseRef @ ''...'' @ toRef headRef) repoRoot
        = execSync' (''git diff '' @ toRef baseRef @ ''...'' @ toRef headRef) repoRoot"
  then show "getDiffContent execSync repoRoot baseRef headRef
        = getDiffContent execSync' repoRoot baseRef headRef"
    by (rule getDiffContent_one_command)
qed

text \<open>
  In a repository where the diff between the plain names \<^verbatim>\<open>main...feature/x\<close> fails and
  only the diffs between the remote-tracking references succeed, the branches \<^verbatim>\<open>main\<close>
  and \<^verbatim>\<open>feature/x\<close> yield the diff of \<^verbatim>\<open>origin/main...origin/feature/x\<close>, and the names
  \<^verbatim>\<open>origin/main\<close> and \<^verbatim>\<open>refs/heads/feature/x\<close> are compared as they are.
\<close>

theorem getDiffContent_remote_refs_witness:
  "getDiffContent exec_remote_only ''/code/repos/Repo'' ''main'' ''feature/x''
     = Inr ''diff of the remote branches''
   \<and> getDiffContent exec_remote_only ''/code/repos/Repo'' ''origin/main'' ''refs/heads/feature/x''
       = Inr ''diff against the full reference''
   \<and> exec_remote_only ''git diff main...feature/x'' ''/code/repos/Repo''
       = ExecFailed None ''unknown revision''
   \<and> toRef ''main'' = ''origin/main''
   \<and> toRef ''origin/main'' = ''origin/main''
   \<and> toRef ''refs/heads/feature/x'' = ''refs/heads/feature/x''"
proof -
  let ?root = "''/code/repos/Repo''"
  have plain: "\<not> js_startsWith ''main'' ''origin/'' \<and> \<not> js_startsWith ''main'' ''refs/'' \<and>
       \<not> js_startsWith ''feature/x'' ''origin/'' \<and> \<not> js_startsWith ''feature/x'' ''refs/'' \<and>
       exec_remote_only (''git diff origin/'' @ ''main'' @ ''...origin/'' @ ''feature/x'') ?root
         = ExecOk ''diff of the remote branches''"
    by (simp add: js_startsWith_def exec_remote_only_def)
  have one: "getDiffContent exec_remote_only ?root ''main'' ''feature/x''
      = Inr ''diff of the remote branches''"
    by (rule getDiffContent_remote_refs [where execSync = exec_remote_only and repoRoot = ?root
          and baseRef = "''main''" and headRef = "''feature/x''"
          and out = "''diff of the remote branches''",
          THEN conjunct2, THEN conjunct2, THEN conjunct1, THEN mp, OF plain])
  have m: "\<not> js_startsWith ''main'' ''origin/'' \<and> \<not> js_startsWith ''main'' ''refs/''"
    by (simp add: js_startsWith_def)
  have o: "js_startsWith ''origin/main'' ''origin/'' \<or> js_startsWith ''origin/main'' ''refs/''"
    by (simp add: js_startsWith_def)
  have r: "js_startsWith ''refs/heads/feature/x'' ''origin/'' \<or>
      js_startsWith ''refs/heads/feature/x'' ''refs/''"
    by (simp add: js_startsWith_def)
  have tm: "toRef ''main'' = ''origin/'' @ ''main''"
    by (rule getDiffContent_remote_refs [where ref = "''main''", THEN conjunct1, THEN mp, OF m])
  have to: "toRef ''origin/main'' = ''origin/main''"
    by (rule getDiffContent_remote_refs [where ref = "''origin/main''", THEN conjunct2,
          THEN conjunct1, THEN mp, OF o])
  have tr: "toRef ''refs/heads/feature/x'' = ''refs/heads/feature/x''"
    by (rule getDiffContent_remote_refs [where ref = "''refs/heads/feature/x''", THEN conjunct2,
          THEN conjunct1, THEN mp, OF r])
  have full: "exec_remote_only
        (''git diff '' @ toRef ''origin/main'' @ ''...'' @ toRef ''refs/heads/feature/x'') ?root
      = ExecOk ''diff against the full reference''"
    unfolding to tr by (simp add: exec_remote_only_def)
  have two: "getDiffContent exec_remote_only ?root ''origin/main'' ''refs/heads/feature/x''
      = Inr ''diff against the full reference''"
    by (rule getDiffContent_remote_refs [where execSync = exec_remote_only and repoRoot = ?root
          and baseRef = "''origin/main''" and headRef = "''refs/heads/feature/x''"
          and out = "''diff against the full reference''",
          THEN conjunct2, THEN conjunct2, THEN conjunct2, THEN conjunct2, THEN conjunct1,
          THEN mp, OF full])
  have local: "exec_remote_only ''git diff main...feature/x'' ?root
      = ExecFailed None ''unknown revision''"
    by (simp add: exec_remote_only_def)
  from one two local tm to tr show ?thesis by simp
qed

subsection \<open>parseArgs\<close>

text \<open>
  Claim C8 does not hold of the code. For the arguments
  \<^verbatim>\<open>main feature/z --output-dir ./Reviews\<close>, \<open>parseArgs\<close> takes \<^verbatim>\<open>main\<close> and
  \<^verbatim>\<open>feature/z\<close> as the branches and then advances its index by three, past
  \<^verbatim>\<open>--output-dir\<close>: the output directory is not recognised. \<open>main\<close> therefore does not
  prompt for a repository on account of an output directory (it uses the git root of the
  working directory), and the artifacts get the fixed names, without the slug
  \<^verbatim>\<open>main_feature_z\<close>. With the option before the branches, the same arguments behave as
  the claim says: the output directory is recognised, the repository is prompted for, and
  the names embed \<^verbatim>\<open>main_feature_z\<close>.
\<close>

theorem parseArgs_skips_option_after_branches:
  "parseArgs [''main'', ''feature/z'', ''--output-dir'', ''./Reviews''] =
     \<lparr>arg_prIdOrUrl = None, arg_base = Some ''main'', arg_head = Some ''feature/z'',
      arg_repo = None, arg_outputDir = None\<rparr>
   \<and> direct_repo_source (parseArgs [''main'', ''feature/z'', ''--output-dir'', ''./Reviews''])
        = RepoFromWorkingDirectory
   \<and> diffFileName None
        (arg_outputDir (parseArgs [''main'', ''feature/z'', ''--output-dir'', ''./Reviews'']))
        ''main'' ''feature/z'' = ''.codehermit-diff.txt''
   \<and> outputFileName None
        (arg_outputDir (parseArgs [''main'', ''feature/z'', ''--output-dir'', ''./Reviews'']))
        ''main'' ''feature/z'' = ''.codehermit-output.md''
   \<and> parseArgs [''--output-dir'', ''./Reviews'', ''main'', ''feature/z''] =
        \<lparr>arg_prIdOrUrl = None, arg_base = Some ''main'', arg_head = Some ''feature/z'',
         arg_repo = None, arg_outputDir = Some ''./Reviews''\<rparr>
   \<and> direct_repo_source (parseArgs [''--output-dir'', ''./Reviews'', ''main'', ''feature/z''])
        = RepoPrompted
   \<and> diffFileName None
        (arg_outputDir (parseArgs [''--output-dir'', ''./Reviews'', ''main'', ''feature/z'']))
        ''main'' ''feature/z'' = ''.main_feature_z.codehermit-diff.txt''"
proof -
  have after: "parseArgs [''main'', ''feature/z'', ''--output-dir'', ''./Reviews''] =
     \<lparr>arg_prIdOrUrl = None, arg_base = Some ''main'', arg_head = Some ''feature/z'',
      arg_repo = None, arg_outputDir = None\<rparr>"
    by (simp add: parseArgs_def parseArgs_loop.simps js_nth_def js_startsWith_def all_digits_def
        is_digit_def truthy_def)
  have before: "parseArgs [''--output-dir'', ''./Reviews'', ''main'', ''feature/z''] =
        \<lparr>arg_prIdOrUrl = None, arg_base = Some ''main'', arg_head = Some ''feature/z'',
         arg_repo = None, arg_outputDir = Some ''./Reviews''\<rparr>"
    by (simp add: parseArgs_def parseArgs_loop.simps js_nth_def js_startsWith_def all_digits_def
        is_digit_def truthy_def)
  show ?thesis
    unfolding after before
    by (simp add: direct_repo_source_def truthy_def diffFileName_def outputFileName_def
        truthy_number_def DIFF_FILE_BASE_def OUTPUT_FILE_BASE_def sanitizeBranchForFile_def
        is_space_def)
qed

subsection \<open>Supervision of the review agent\<close>

lemma run_from_Cons:
  "run_from p (e # es) s =
     (fst (handle p e s) @ fst (run_from p es (snd (handle p e s))),
      snd (run_from p es (snd (handle p e s))))"
  by (simp add: Let_def split: prod.splits)

lemma run_from_append:
  "run_from p (xs @ ys) s =
     (fst (run_from p xs s) @ fst (run_from p ys (snd (run_from p xs s))),
      snd (run_from p ys (snd (run_from p xs s))))"
  by (induction xs arbitrary: s) (simp_all add: run_from_Cons del: run_from.simps(2))

lemma run_from_exited: "host_exit s \<noteq> None \<Longrightarrow> run_from p es s = ([], s)"
  by (induction es) (simp_all add: run_from_Cons handle_def del: run_from.simps(2))

lemma run_from_ticks:
  "spinner_running s \<Longrightarrow> host_exit s = None \<Longrightarrow>
     run_from p (replicate n Tick) s =
       (map spinner_frame [spinnerIndex s ..< spinnerIndex s + n],
        s\<lparr>spinnerIndex := spinnerIndex s + n\<rparr>)"
proof (induction n arbitrary: s)
  case 0
  then show ?case by simp
next
  case (Suc n)
  let ?s' = "s\<lparr>spinnerIndex := Suc (spinnerIndex s)\<rparr>"
  from Suc.prems have h: "handle p Tick s = ([spinner_frame (spinnerIndex s)], ?s')"
    by (simp add: handle_def on_tick_def)
  from Suc.prems have "run_from p (replicate n Tick) ?s' =
       (map spinner_frame [spinnerIndex ?s' ..< spinnerIndex ?s' + n],
        ?s'\<lparr>spinnerIndex := spinnerIndex ?s' + n\<rparr>)"
    by (intro Suc.IH) simp_all
  then have r: "run_from p (replicate n Tick) ?s' =
       (map spinner_frame [Suc (spinnerIndex s) ..< Suc (spinnerIndex s + n)],
        s\<lparr>spinnerIndex := spinnerIndex s + Suc n\<rparr>)"
    by simp
  have u: "[spinnerIndex s ..< spinnerIndex s + Suc n] =
      spinnerIndex s # [Suc (spinnerIndex s) ..< Suc (spinnerIndex s + n)]"
    by (simp add: upt_conv_Cons)
  show ?case
    unfolding replicate_Suc run_from_Cons h u using r by simp
qed

lemma run_from_ticks_stopped:
  "\<not> spinner_running s \<Longrightarrow> run_from p (replicate n Tick) s = ([], s)"
  by (induction n) (simp_all add: run_from_Cons handle_def on_tick_def del: run_from.simps(2))

lemma runReview_ticks:
  "runReview p (replicate n Tick) =
     (map spinner_frame [0 ..< n], initial_supervisor\<lparr>spinnerIndex := n\<rparr>)"
  using run_from_ticks [of initial_supervisor p n]
  by (simp add: runReview_def initial_supervisor_def)

lemma runReview_ticks_then:
  "runReview p (replicate n Tick @ es) =
     (map spinner_frame [0 ..< n] @ fst (run_from p es (initial_supervisor\<lparr>spinnerIndex := n\<rparr>)),
      snd (run_from p es (initial_supervisor\<lparr>spinnerIndex := n\<rparr>)))"
  using runReview_ticks [of p n] by (simp add: runReview_def run_from_append)

text \<open>The timer is running only while no chunk has arrived and the host has not exited.\<close>

lemma handle_spinner_inv:
  "(spinner_running s \<longrightarrow> firstChunk s \<and> host_exit s = None) \<Longrightarrow>
   (spinner_running (snd (handle p e s)) \<longrightarrow>
      firstChunk (snd (handle p e s)) \<and> host_exit (snd (handle p e s)) = None)"
  by (cases e) (auto simp: handle_def on_tick_def on_data_def on_end_def on_error_def on_exit_def
      Let_def)

lemma run_from_spinner_inv:
  "(spinner_running s \<longrightarrow> firstChunk s \<and> host_exit s = None) \<Longrightarrow>
   (spinner_running (snd (run_from p es s)) \<longrightarrow>
      firstChunk (snd (run_from p es s)) \<and> host_exit (snd (run_from p es s)) = None)"
proof (induction es arbitrary: s)
  case Nil
  then show ?case by simp
next
  case (Cons e es)
  from handle_spinner_inv [OF Cons.prems, of p e]
  have "spinner_running (snd (run_from p es (snd (handle p e s)))) \<longrightarrow>
      firstChunk (snd (run_from p es (snd (handle p e s)))) \<and>
      host_exit (snd (run_from p es (snd (handle p e s)))) = None"
    by (rule Cons.IH)
  then show ?case by (simp add: run_from_Cons del: run_from.simps(2))
qed

lemma handle_stops_spinner:
  "(spinner_running s \<longrightarrow> firstChunk s \<and> host_exit s = None) \<Longrightarrow> e \<noteq> Tick \<Longrightarrow>
     \<not> spinner_running (snd (handle p e s))"
  by (cases e) (auto simp: handle_def on_data_def on_end_def on_error_def on_exit_def Let_def)

lemma handle_spinner_stays_stopped:
  "\<not> spinner_running s \<Longrightarrow> \<not> spinner_running (snd (handle p e s))"
  by (cases e) (auto simp: handle_def on_tick_def on_data_def on_end_def on_error_def on_exit_def
      Let_def)

lemma run_from_spinner_stays_stopped:
  "\<not> spinner_running s \<Longrightarrow> \<not> spinner_running (snd (run_from p es s))"
proof (induction es arbitrary: s)
  case Nil
  then show ?case by simp
next
  case (Cons e es)
  from handle_spinner_stays_stopped [OF Cons.prems, of p e]
  have "\<not> spinner_running (snd (run_from p es (snd (handle p e s))))"
    by (rule Cons.IH)
  then show ?case by (simp add: run_from_Cons del: run_from.simps(2))
qed

lemma run_from_stops_spinner:
  "(spinner_running s \<longrightarrow> firstChunk s \<and> host_exit s = None) \<Longrightarrow> \<not> list_all (\<lambda>e. e = Tick) es \<Longrightarrow>
     \<not> spinner_running (snd (run_from p es s))"
proof (induction es arbitrary: s)
  case Nil
  then show ?case by simp
next
  case (Cons e es)
  show ?case
  proof (cases "e = Tick")
    case True
    with Cons.prems have rest: "\<not> list_all (\<lambda>e. e = Tick) es" by simp
    from handle_spinner_inv [OF Cons.prems(1), of p e]
    have "\<not> spinner_running (snd (run_from p es (snd (handle p e s))))"
      using rest by (rule Cons.IH)
    then show ?thesis by (simp add: run_from_Cons del: run_from.simps(2))
  next
    case False
    from handle_stops_spinner [OF Cons.prems(1) False, of p]
    have "\<not> spinner_running (snd (run_from p es (snd (handle p e s))))"
      by (rule run_from_spinner_stays_stopped)
    then show ?thesis by (simp add: run_from_Cons del: run_from.simps(2))
  qed
qed

lemma runReview_later_ticks_silent:
  assumes "\<not> list_all (\<lambda>e. e = Tick) es"
  shows "runReview p (es @ replicate m Tick) = runReview p es"
proof -
  have "\<not> spinner_running (snd (run_from p es initial_supervisor))"
    using assms by (intro run_from_stops_spinner) (simp_all add: initial_supervisor_def)
  then show ?thesis
    by (simp add: runReview_def run_from_append run_from_ticks_stopped)
qed

text \<open>Where one effect precedes another in a sequence of effects put together from parts.\<close>

lemma precedes_skip:
  assumes "b \<notin> set xs" and "\<And>pre post. ys = pre @ b # post \<Longrightarrow> a \<in> set pre"
    and "xs @ ys = pre @ b # post"
  shows "a \<in> set pre"
proof -
  from assms(3) consider us where "xs = pre @ us" "us @ ys = b # post"
    | us where "xs @ us = pre" "ys = us @ b # post"
    by (auto simp: append_eq_append_conv2)
  then show ?thesis
  proof cases
    case 1
    with assms(1) have "us = []" by (cases us) auto
    with 1 have "ys = [] @ b # post" "pre = xs" by simp_all
    with assms(2) [of "[]" post] show ?thesis by simp
  next
    case 2
    with assms(2) [of us post] show ?thesis by auto
  qed
qed

lemma precedes_done:
  assumes "\<And>pre post. xs = pre @ b # post \<Longrightarrow> a \<in> set pre" and "a \<in> set xs"
    and "xs @ ys = pre @ b # post"
  shows "a \<in> set pre"
proof -
  from assms(3) consider us where "xs = pre @ us" "us @ ys = b # post"
    | us where "xs @ us = pre" "ys = us @ b # post"
    by (auto simp: append_eq_append_conv2)
  then show ?thesis
  proof cases
    case 1
    show ?thesis
    proof (cases us)
      case Nil
      with 1 assms(2) show ?thesis by simp
    next
      case (Cons u us')
      with 1 have "xs = pre @ b # us'" by simp
      then show ?thesis by (rule assms(1))
    qed
  next
    case 2
    with assms(2) show ?thesis by auto
  qed
qed

text \<open>What the handlers of one event emit, by the state they run in.\<close>

lemma handle_effects:
  "fst (handle p e s) =
     (if host_exit s \<noteq> None then []
      else case e of
        Tick \<Rightarrow> (if spinner_running s then [spinner_frame (spinnerIndex s)] else [])
      | StdoutData chunk \<Rightarrow>
          (if firstChunk s then [ClearInterval, StderrWrite clear_line] else [])
            @ [StdoutWrite chunk, FileWrite chunk]
      | StdoutEnd \<Rightarrow> (if firstChunk s then [ClearInterval] else []) @ [StderrWrite clear_line, FileEnd]
      | ChildError code \<Rightarrow>
          [ClearInterval, StderrWrite clear_line, FileEnd]
            @ (if code = ''ENOENT'' then agent_not_found_help else [ConsoleErrorObject code])
            @ [ProcessExit 1]
      | ChildExit code \<Rightarrow>
          [ClearInterval, StderrWrite clear_line, FileEnd, review_saved p,
           ProcessExit (case code of None \<Rightarrow> 0 | Some c \<Rightarrow> c)])"
  by (cases e) (simp_all add: handle_def on_tick_def on_data_def on_end_def on_error_def
      on_exit_def Let_def)

lemma handle_host_exit:
  "host_exit (snd (handle p e s)) =
     (if host_exit s \<noteq> None then host_exit s
      else case e of
        ChildError code \<Rightarrow> Some 1
      | ChildExit code \<Rightarrow> Some (case code of None \<Rightarrow> 0 | Some c \<Rightarrow> c)
      | _ \<Rightarrow> None)"
  by (cases e) (simp_all add: handle_def on_tick_def on_data_def on_end_def on_error_def
      on_exit_def Let_def)

lemma review_saved_not_in_help: "review_saved p \<notin> set agent_not_found_help"
  by (simp add: review_saved_def agent_not_found_help_def)

lemma review_saved_not_frame: "review_saved p \<noteq> spinner_frame k"
  by (simp add: review_saved_def spinner_frame_def)

lemma review_saved_distinct:
  "review_saved p \<noteq> ClearInterval" "review_saved p \<noteq> StderrWrite x"
  "review_saved p \<noteq> StdoutWrite x" "review_saved p \<noteq> FileWrite x"
  "review_saved p \<noteq> FileEnd" "review_saved p \<noteq> ConsoleErrorObject x"
  "review_saved p \<noteq> ProcessExit k"
  by (simp_all add: review_saved_def)

lemma handle_saved_cases:
  "review_saved p \<notin> set (fst (handle p e s)) \<or>
   fst (handle p e s) =
     [ClearInterval, StderrWrite clear_line, FileEnd, review_saved p,
      ProcessExit (case e of ChildExit (Some c) \<Rightarrow> c | _ \<Rightarrow> 0)]"
  by (cases e)
     (auto simp: handle_effects review_saved_not_in_help review_saved_not_frame
        review_saved_distinct split: option.splits)

lemma exit_effects_order:
  "[ClearInterval, StderrWrite clear_line, FileEnd, review_saved p, ProcessExit k]
     = pre @ review_saved p # post \<Longrightarrow>
   ClearInterval \<in> set pre \<and> StderrWrite clear_line \<in> set pre \<and> FileEnd \<in> set pre"
  by (auto simp: Cons_eq_append_conv review_saved_distinct review_saved_distinct [symmetric])

lemma run_from_cleared_before_saved:
  "fst (run_from p es s) = pre @ review_saved p # post \<Longrightarrow>
     ClearInterval \<in> set pre \<and> StderrWrite clear_line \<in> set pre"
proof (induction es arbitrary: s pre post)
  case Nil
  then show ?case by simp
next
  case (Cons e es)
  let ?fx = "fst (handle p e s)"
  let ?rest = "fst (run_from p es (snd (handle p e s)))"
  from Cons.prems have eq: "?fx @ ?rest = pre @ review_saved p # post"
    by (simp add: run_from_Cons del: run_from.simps(2))
  from handle_saved_cases [of p e s] show ?case
  proof
    assume absent: "review_saved p \<notin> set ?fx"
    have "ClearInterval \<in> set pre"
      using absent _ eq
    proof (rule precedes_skip)
      fix pre' post'
      assume "?rest = pre' @ review_saved p # post'"
      then show "ClearInterval \<in> set pre'" using Cons.IH by blast
    qed
    moreover have "StderrWrite clear_line \<in> set pre"
      using absent _ eq
    proof (rule precedes_skip)
      fix pre' post'
      assume "?rest = pre' @ review_saved p # post'"
      then show "StderrWrite clear_line \<in> set pre'" using Cons.IH by blast
    qed
    ultimately show ?thesis by simp
  next
    assume ex: "?fx = [ClearInterval, StderrWrite clear_line, FileEnd, review_saved p,
      ProcessExit (case e of ChildExit (Some c) \<Rightarrow> c | _ \<Rightarrow> 0)]"
    have "ClearInterval \<in> set pre"
    proof (rule precedes_done [OF _ _ eq])
      fix pre' post'
      assume "?fx = pre' @ review_saved p # post'"
      with ex exit_effects_order [of p _ pre' post'] show "ClearInterval \<in> set pre'" by simp
    next
      from ex show "ClearInterval \<in> set ?fx" by simp
    qed
    moreover have "StderrWrite clear_line \<in> set pre"
    proof (rule precedes_done [OF _ _ eq])
      fix pre' post'
      assume "?fx = pre' @ review_saved p # post'"
      with ex exit_effects_order [of p _ pre' post'] show "StderrWrite clear_line \<in> set pre'"
        by simp
    next
      from ex show "StderrWrite clear_line \<in> set ?fx" by simp
    qed
    ultimately show ?thesis by simp
  qed
qed

lemma handle_closed_before_exit:
  "fst (handle p e s) = pre @ ProcessExit k # post \<Longrightarrow> FileEnd \<in> set pre"
  by (cases e)
     (auto simp: handle_effects Cons_eq_append_conv agent_not_found_help_def review_saved_def
        spinner_frame_def split: if_splits)

lemma handle_exit_closes:
  "ProcessExit k \<in> set (fst (handle p e s)) \<Longrightarrow> FileEnd \<in> set (fst (handle p e s))"
  by (cases e) (auto simp: handle_effects spinner_frame_def split: if_splits)

lemma run_from_closed_before_exit:
  "fst (run_from p es s) = pre @ ProcessExit k # post \<Longrightarrow> FileEnd \<in> set pre"
proof (induction es arbitrary: s pre post)
  case Nil
  then show ?case by simp
next
  case (Cons e es)
  let ?fx = "fst (handle p e s)"
  let ?rest = "fst (run_from p es (snd (handle p e s)))"
  from Cons.prems have eq: "?fx @ ?rest = pre @ ProcessExit k # post"
    by (simp add: run_from_Cons del: run_from.simps(2))
  show ?case
  proof (cases "ProcessExit k \<in> set ?fx")
    case False
    then show ?thesis
      using _ eq
    proof (rule precedes_skip)
      fix pre' post'
      assume "?rest = pre' @ ProcessExit k # post'"
      then show "FileEnd \<in> set pre'" by (rule Cons.IH)
    qed
  next
    case True
    show ?thesis
    proof (rule precedes_done [OF _ _ eq])
      fix pre' post'
      assume "?fx = pre' @ ProcessExit k # post'"
      then show "FileEnd \<in> set pre'" by (rule handle_closed_before_exit)
    next
      from True show "FileEnd \<in> set ?fx" by (rule handle_exit_closes)
    qed
  qed
qed

lemma run_from_closes:
  "host_exit s = None \<Longrightarrow>
   StdoutEnd \<in> set es \<or> (\<exists>c. ChildError c \<in> set es) \<or> (\<exists>c. ChildExit c \<in> set es) \<Longrightarrow>
   FileEnd \<in> set (fst (run_from p es s))"
proof (induction es arbitrary: s)
  case Nil
  then show ?case by simp
next
  case (Cons e es)
  show ?case
  proof (cases "FileEnd \<in> set (fst (handle p e s))")
    case True
    then show ?thesis by (simp add: run_from_Cons del: run_from.simps(2))
  next
    case False
    with Cons.prems(1) have e: "e = Tick \<or> (\<exists>c. e = StdoutData c)"
      by (cases e) (auto simp: handle_effects)
    with Cons.prems(1) have "host_exit (snd (handle p e s)) = None"
      by (auto simp: handle_host_exit)
    moreover from e Cons.prems(2)
    have "StdoutEnd \<in> set es \<or> (\<exists>c. ChildError c \<in> set es) \<or> (\<exists>c. ChildExit c \<in> set es)"
      by auto
    ultimately have "FileEnd \<in> set (fst (run_from p es (snd (handle p e s))))"
      by (rule Cons.IH)
    then show ?thesis by (simp add: run_from_Cons del: run_from.simps(2))
  qed
qed

lemma run_from_close_count:
  "count_list (fst (run_from p es s)) FileEnd
     \<le> count_list es StdoutEnd + (if host_exit s = None then 1 else 0)"
proof (induction es arbitrary: s)
  case Nil
  then show ?case by simp
next
  case (Cons e es)
  show ?case
  proof (cases "host_exit s = None")
    case False
    then show ?thesis by (simp add: run_from_exited del: run_from.simps(2))
  next
    case True
    note IH = Cons.IH [of "snd (handle p e s)"]
    show ?thesis
    proof (cases e)
      case Tick
      with True IH show ?thesis
        by (simp add: run_from_Cons handle_effects handle_host_exit spinner_frame_def
            del: run_from.simps(2))
    next
      case (StdoutData c)
      with True IH show ?thesis
        by (simp add: run_from_Cons handle_effects handle_host_exit del: run_from.simps(2))
    next
      case StdoutEnd
      with True IH show ?thesis
        by (simp add: run_from_Cons handle_effects handle_host_exit del: run_from.simps(2))
    next
      case (ChildError c)
      with True IH show ?thesis
        by (simp add: run_from_Cons handle_effects handle_host_exit agent_not_found_help_def
            del: run_from.simps(2))
    next
      case (ChildExit c)
      with True IH show ?thesis
        by (simp add: run_from_Cons handle_effects handle_host_exit review_saved_def
            del: run_from.simps(2))
    qed
  qed
qed

lemma run_from_stream_events:
  "list_all is_stream_event es \<Longrightarrow> host_exit s = None \<Longrightarrow>
     host_exit (snd (run_from p es s)) = None \<and> ProcessExit k \<notin> set (fst (run_from p es s))"
proof (induction es arbitrary: s)
  case Nil
  then show ?case by simp
next
  case (Cons e es)
  from Cons.prems have e: "is_stream_event e" and es: "list_all is_stream_event es"
    by simp_all
  from e Cons.prems(2) have alive: "host_exit (snd (handle p e s)) = None"
    by (cases e) (simp_all add: handle_host_exit)
  from e Cons.prems(2) have quiet: "ProcessExit k \<notin> set (fst (handle p e s))"
    by (cases e) (simp_all add: handle_effects spinner_frame_def)
  from Cons.IH [OF es alive] quiet show ?case
    by (simp add: run_from_Cons del: run_from.simps(2))
qed

lemma runReview_exit_code:
  assumes "list_all is_stream_event before"
  shows "runReview p (before @ ChildExit code # after) =
           (fst (runReview p before)
              @ [ClearInterval, StderrWrite clear_line, FileEnd, review_saved p,
                 ProcessExit (case code of None \<Rightarrow> 0 | Some c \<Rightarrow> c)],
            (snd (runReview p before))
              \<lparr>spinner_running := False,
               host_exit := Some (case code of None \<Rightarrow> 0 | Some c \<Rightarrow> c)\<rparr>)"
proof -
  let ?s = "snd (run_from p before initial_supervisor)"
  from assms have alive: "host_exit ?s = None"
    using run_from_stream_events [of before initial_supervisor p 0]
    by (simp add: initial_supervisor_def)
  then have h: "handle p (ChildExit code) ?s =
      ([ClearInterval, StderrWrite clear_line, FileEnd, review_saved p,
        ProcessExit (case code of None \<Rightarrow> 0 | Some c \<Rightarrow> c)],
       ?s\<lparr>spinner_running := False,
          host_exit := Some (case code of None \<Rightarrow> 0 | Some c \<Rightarrow> c)\<rparr>)"
    by (simp add: handle_def on_exit_def Let_def)
  have "run_from p after (snd (handle p (ChildExit code) ?s)) =
      ([], snd (handle p (ChildExit code) ?s))"
    by (rule run_from_exited) (simp add: h)
  with h show ?thesis
    by (simp add: runReview_def run_from_append run_from_Cons del: run_from.simps(2))
qed

lemma runReview_first_chunk:
  "runReview p (replicate n Tick @ [StdoutData chunk]) =
     (map spinner_frame [0 ..< n]
        @ [ClearInterval, StderrWrite clear_line, StdoutWrite chunk, FileWrite chunk],
      \<lparr>firstChunk = False, spinnerIndex = n, spinner_running = False, host_exit = None\<rparr>)"
  by (simp add: runReview_ticks_then run_from_Cons handle_def on_data_def initial_supervisor_def
      del: run_from.simps(2))

lemma runReview_second_chunk:
  "runReview p (replicate n Tick @ StdoutData chunk # replicate m Tick @ [StdoutData chunk']) =
     (map spinner_frame [0 ..< n]
        @ [ClearInterval, StderrWrite clear_line, StdoutWrite chunk, FileWrite chunk,
           StdoutWrite chunk', FileWrite chunk'],
      \<lparr>firstChunk = False, spinnerIndex = n, spinner_running = False, host_exit = None\<rparr>)"
  by (simp add: runReview_ticks_then run_from_Cons run_from_append run_from_ticks_stopped
      handle_def on_data_def initial_supervisor_def del: run_from.simps(2))

lemma runReview_end_without_output:
  "runReview p (replicate n Tick @ [StdoutEnd]) =
     (map spinner_frame [0 ..< n] @ [ClearInterval, StderrWrite clear_line, FileEnd],
      \<lparr>firstChunk = True, spinnerIndex = n, spinner_running = False, host_exit = None\<rparr>)"
  by (simp add: runReview_ticks_then run_from_Cons handle_def on_end_def initial_supervisor_def
      del: run_from.simps(2))

lemma runReview_exit_without_output:
  "runReview p (replicate n Tick @ [ChildExit code]) =
     (map spinner_frame [0 ..< n]
        @ [ClearInterval, StderrWrite clear_line, FileEnd, review_saved p,
           ProcessExit (case code of None \<Rightarrow> 0 | Some c \<Rightarrow> c)],
      \<lparr>firstChunk = True, spinnerIndex = n, spinner_running = False,
       host_exit = Some (case code of None \<Rightarrow> 0 | Some c \<Rightarrow> c)\<rparr>)"
  by (simp add: runReview_ticks_then run_from_Cons handle_def on_exit_def initial_supervisor_def
      Let_def del: run_from.simps(2))

lemma runReview_agent_not_found:
  "runReview p (replicate n Tick @ [ChildError ''ENOENT'']) =
     (map spinner_frame [0 ..< n] @ [ClearInterval, StderrWrite clear_line, FileEnd]
        @ agent_not_found_help @ [ProcessExit 1],
      \<lparr>firstChunk = True, spinnerIndex = n, spinner_running = False, host_exit = Some 1\<rparr>)"
  by (simp add: runReview_ticks_then run_from_Cons handle_def on_error_def initial_supervisor_def
      del: run_from.simps(2))

lemma runReview_stops_spinner:
  "\<not> list_all (\<lambda>e. e = Tick) es \<Longrightarrow> \<not> spinner_running (snd (runReview p es))"
  unfolding runReview_def
  by (rule run_from_stops_spinner) (simp_all add: initial_supervisor_def)

text \<open>
  Claim C4, as amended. While only timer ticks have occurred, each tick renders one frame.
  When the first output chunk arrives, the timer is cancelled and the line-clearing
  sequence is written, before the chunk is passed on; a later chunk is only passed on. For
  an agent that produces no output, the timer is cancelled and the line cleared when the
  stream ends, or by the exit handler itself when the process exits first. Once a chunk,
  the end of the stream, an error or an exit has been handled, the timer is stopped and
  further ticks render nothing. In every run, the timer has been cancelled and the line
  cleared before the exit handler prints its completion message.
\<close>

theorem spinner_cleared_before_completion:
  "runReview p (replicate n Tick @ [StdoutData chunk]) =
     (map spinner_frame [0 ..< n]
        @ [ClearInterval, StderrWrite clear_line, StdoutWrite chunk, FileWrite chunk],
      \<lparr>firstChunk = False, spinnerIndex = n, spinner_running = False, host_exit = None\<rparr>)
   \<and> runReview p (replicate n Tick @ StdoutData chunk # replicate m Tick @ [StdoutData chunk']) =
     (map spinner_frame [0 ..< n]
        @ [ClearInterval, StderrWrite clear_line, StdoutWrite chunk, FileWrite chunk,
           StdoutWrite chunk', FileWrite chunk'],
      \<lparr>firstChunk = False, spinnerIndex = n, spinner_running = False, host_exit = None\<rparr>)
   \<and> runReview p (replicate n Tick @ [StdoutEnd]) =
     (map spinner_frame [0 ..< n] @ [ClearInterval, StderrWrite clear_line, FileEnd],
      \<lparr>firstChunk = True, spinnerIndex = n, spinner_running = False, host_exit = None\<rparr>)
   \<and> runReview p (replicate n Tick @ [ChildExit code]) =
     (map spinner_frame [0 ..< n]
        @ [ClearInterval, StderrWrite clear_line, FileEnd, review_saved p,
           ProcessExit (case code of None \<Rightarrow> 0 | Some c \<Rightarrow> c)],
      \<lparr>firstChunk = True, spinnerIndex = n, spinner_running = False,
       host_exit = Some (case code of None \<Rightarrow> 0 | Some c \<Rightarrow> c)\<rparr>)
   \<and> (\<not> list_all (\<lambda>e. e = Tick) es \<longrightarrow>
        \<not> spinner_running (snd (runReview p es)) \<and>
        runReview p (es @ replicate m Tick) = runReview p es)
   \<and> (fst (runReview p es) = pre @ review_saved p # post \<longrightarrow>
        ClearInterval \<in> set pre \<and> StderrWrite clear_line \<in> set pre)"
  using runReview_first_chunk [of p n chunk] runReview_second_chunk [of p n chunk m chunk']
    runReview_end_without_output [of p n] runReview_exit_without_output [of p n code]
    runReview_stops_spinner [of es p] runReview_later_ticks_silent [of es p m]
    run_from_cleared_before_saved [of p es initial_supervisor pre post]
  unfolding runReview_def [of p es]
  by blast

text \<open>
  An agent without output: one tick, the end of the stream, the exit. The timer is
  cancelled and the line cleared before the completion message, and later ticks of the
  timer change nothing.
\<close>

theorem spinner_cleared_before_completion_witness:
  "fst (runReview ''out.md'' [Tick, StdoutEnd, ChildExit None]) =
     [spinner_frame 0, ClearInterval, StderrWrite clear_line, FileEnd,
      ClearInterval, StderrWrite clear_line, FileEnd] @ review_saved ''out.md'' # [ProcessExit 0]
   \<and> ClearInterval \<in> set [spinner_frame 0, ClearInterval, StderrWrite clear_line, FileEnd,
        ClearInterval, StderrWrite clear_line, FileEnd]
   \<and> runReview ''out.md'' ([Tick, StdoutEnd, ChildExit None] @ replicate 2 Tick)
        = runReview ''out.md'' [Tick, StdoutEnd, ChildExit None]"
proof -
  let ?es = "[Tick, StdoutEnd, ChildExit None]"
  let ?pre = "[spinner_frame 0, ClearInterval, StderrWrite clear_line, FileEnd,
      ClearInterval, StderrWrite clear_line, FileEnd]"
  have trace: "fst (runReview ''out.md'' ?es) = ?pre @ review_saved ''out.md'' # [ProcessExit 0]"
    by (simp add: runReview_def run_from_Cons handle_def on_tick_def on_end_def on_exit_def
        initial_supervisor_def del: run_from.simps(2))
  have other: "\<not> list_all (\<lambda>e. e = Tick) ?es"
    by simp
  note all = spinner_cleared_before_completion [where p = "''out.md''" and es = ?es
      and pre = ?pre and post = "[ProcessExit 0]" and m = 2]
  have cleared: "ClearInterval \<in> set ?pre"
    using all [THEN conjunct2, THEN conjunct2, THEN conjunct2, THEN conjunct2, THEN conjunct2,
        THEN mp, OF trace]
    by (rule conjunct1)
  have silent: "runReview ''out.md'' (?es @ replicate 2 Tick) = runReview ''out.md'' ?es"
    using all [THEN conjunct2, THEN conjunct2, THEN conjunct2, THEN conjunct2, THEN conjunct1,
        THEN mp, OF other]
    by (rule conjunct2)
  from trace cleared silent show ?thesis by blast
qed

text \<open>
  Claim C4 as stated fails. With one chunk of output, the line-clearing sequence is
  written three times, by the first chunk, by the end of the stream and by the exit
  handler, and \<^verbatim>\<open>clearInterval\<close> is called twice.
\<close>

theorem spinner_cleared_three_times_counterexample:
  "fst (runReview ''out.md'' [StdoutData ''x'', StdoutEnd, ChildExit (Some 0)]) =
     [ClearInterval, StderrWrite clear_line, StdoutWrite ''x'', FileWrite ''x'',
      StderrWrite clear_line, FileEnd,
      ClearInterval, StderrWrite clear_line, FileEnd, review_saved ''out.md'', ProcessExit 0]
   \<and> count_list (fst (runReview ''out.md'' [StdoutData ''x'', StdoutEnd, ChildExit (Some 0)]))
        (StderrWrite clear_line) = 3
   \<and> count_list (fst (runReview ''out.md'' [StdoutData ''x'', StdoutEnd, ChildExit (Some 0)]))
        ClearInterval = 2"
proof -
  have trace: "fst (runReview ''out.md'' [StdoutData ''x'', StdoutEnd, ChildExit (Some 0)]) =
     [ClearInterval, StderrWrite clear_line, StdoutWrite ''x'', FileWrite ''x'',
      StderrWrite clear_line, FileEnd,
      ClearInterval, StderrWrite clear_line, FileEnd, review_saved ''out.md'', ProcessExit 0]"
    by (simp add: runReview_def run_from_Cons handle_def on_data_def on_end_def on_exit_def
        initial_supervisor_def del: run_from.simps(2))
  show ?thesis
    unfolding trace by (simp add: review_saved_def)
qed

text \<open>
  Claim C5, as amended. The handlers of the end of the stream, of an error and of the exit
  each call \<^verbatim>\<open>fileStream.end()\<close>. So the output file has been ended once any of these
  events has been handled, and on every path on which the host process exits, after an
  error (an agent that is not found included, where the host exits with 1) or after the
  agent's exit, it has been ended before \<^verbatim>\<open>process.exit\<close> is called.
  \<^verbatim>\<open>fileStream.end()\<close> is called at most once for every end of the stream and once more by
  the handler that ends the host process.
\<close>

theorem output_file_ended_on_every_path:
  "(fst (runReview p es) = pre @ ProcessExit k # post \<longrightarrow> FileEnd \<in> set pre)
   \<and> (StdoutEnd \<in> set es \<or> (\<exists>c. ChildError c \<in> set es) \<or> (\<exists>c. ChildExit c \<in> set es) \<longrightarrow>
        FileEnd \<in> set (fst (runReview p es)))
   \<and> count_list (fst (runReview p es)) FileEnd \<le> count_list es StdoutEnd + 1
   \<and> runReview p (replicate n Tick @ [ChildError ''ENOENT'']) =
        (map spinner_frame [0 ..< n] @ [ClearInterval, StderrWrite clear_line, FileEnd]
           @ agent_not_found_help @ [ProcessExit 1],
         \<lparr>firstChunk = True, spinnerIndex = n, spinner_running = False, host_exit = Some 1\<rparr>)"
proof -
  have init: "host_exit initial_supervisor = None"
    by (simp add: initial_supervisor_def)
  have "count_list (fst (run_from p es initial_supervisor)) FileEnd
      \<le> count_list es StdoutEnd + (if host_exit initial_supervisor = None then 1 else 0)"
    by (rule run_from_close_count)
  with init have count: "count_list (fst (runReview p es)) FileEnd \<le> count_list es StdoutEnd + 1"
    by (simp add: runReview_def)
  from run_from_closed_before_exit [of p es initial_supervisor pre k post]
    run_from_closes [OF init, of es p] count runReview_agent_not_found [of p n]
  show ?thesis
    unfolding runReview_def [of p es] by blast
qed

text \<open>
  An agent that is not found: the file is ended before the host exits with 1. An agent
  that ends its output and exits: the file is ended, before the host exits.
\<close>

theorem output_file_ended_on_every_path_witness:
  "fst (runReview ''out.md'' [ChildError ''ENOENT'']) =
     [ClearInterval, StderrWrite clear_line, FileEnd] @ agent_not_found_help @ [ProcessExit 1]
   \<and> FileEnd \<in> set ([ClearInterval, StderrWrite clear_line, FileEnd] @ agent_not_found_help)
   \<and> FileEnd \<in> set (fst (runReview ''out.md'' [StdoutData ''x'', StdoutEnd, ChildExit (Some 0)]))"
proof -
  let ?pre = "[ClearInterval, StderrWrite clear_line, FileEnd] @ agent_not_found_help"
  have trace: "fst (runReview ''out.md'' [ChildError ''ENOENT'']) = ?pre @ ProcessExit 1 # []"
    by (simp add: runReview_def run_from_Cons handle_def on_error_def initial_supervisor_def
        del: run_from.simps(2))
  have ended: "FileEnd \<in> set ?pre"
    by (rule output_file_ended_on_every_path [where p = "''out.md''"
          and es = "[ChildError ''ENOENT'']" and pre = ?pre and k = 1 and post = "[]",
          THEN conjunct1, THEN mp, OF trace])
  have ev: "StdoutEnd \<in> set [StdoutData ''x'', StdoutEnd, ChildExit (Some 0)] \<or>
      (\<exists>c. ChildError c \<in> set [StdoutData ''x'', StdoutEnd, ChildExit (Some 0)]) \<or>
      (\<exists>c. ChildExit c \<in> set [StdoutData ''x'', StdoutEnd, ChildExit (Some 0)])"
    by simp
  have normal:
    "FileEnd \<in> set (fst (runReview ''out.md'' [StdoutData ''x'', StdoutEnd, ChildExit (Some 0)]))"
    by (rule output_file_ended_on_every_path [where p = "''out.md''"
          and es = "[StdoutData ''x'', StdoutEnd, ChildExit (Some 0)]",
          THEN conjunct2, THEN conjunct1, THEN mp, OF ev])
  from trace ended normal show ?thesis by simp
qed

text \<open>
  Claim C5 as stated fails on the normal path: when the agent's output ends and the agent
  then exits, \<^verbatim>\<open>fileStream.end()\<close> is called twice.
\<close>

theorem output_file_ended_twice_counterexample:
  "fst (runReview ''out.md'' [StdoutData ''x'', StdoutEnd, ChildExit (Some 0)]) =
     [ClearInterval, StderrWrite clear_line, StdoutWrite ''x'', FileWrite ''x'',
      StderrWrite clear_line, FileEnd,
      ClearInterval, StderrWrite clear_line, FileEnd, review_saved ''out.md'', ProcessExit 0]
   \<and> count_list (fst (runReview ''out.md'' [StdoutData ''x'', StdoutEnd, ChildExit (Some 0)]))
        FileEnd = 2"
proof -
  have trace: "fst (runReview ''out.md'' [StdoutData ''x'', StdoutEnd, ChildExit (Some 0)]) =
     [ClearInterval, StderrWrite clear_line, StdoutWrite ''x'', FileWrite ''x'',
      StderrWrite clear_line, FileEnd,
      ClearInterval, StderrWrite clear_line, FileEnd, review_saved ''out.md'', ProcessExit 0]"
    by (simp add: runReview_def run_from_Cons handle_def on_data_def on_end_def on_exit_def
        initial_supervisor_def del: run_from.simps(2))
  show ?thesis
    unfolding trace by (simp add: review_saved_def)
qed

text \<open>
  Claim C6. When no error and no exit event has been handled before, the exit of the agent
  with code \<open>c\<close> makes the host process call \<^verbatim>\<open>process.exit(c)\<close>, and \<^verbatim>\<open>process.exit(0)\<close>
  when the code is \<^verbatim>\<open>null\<close>: that call is the last effect of the run, no earlier effect is
  a \<^verbatim>\<open>process.exit\<close>, and nothing that follows is handled.
\<close>

theorem host_exit_mirrors_agent:
  "list_all is_stream_event before \<longrightarrow>
     runReview p (before @ ChildExit code # after) =
       (fst (runReview p before)
          @ [ClearInterval, StderrWrite clear_line, FileEnd, review_saved p,
             ProcessExit (case code of None \<Rightarrow> 0 | Some c \<Rightarrow> c)],
        (snd (runReview p before))
          \<lparr>spinner_running := False,
           host_exit := Some (case code of None \<Rightarrow> 0 | Some c \<Rightarrow> c)\<rparr>)
     \<and> host_exit (snd (runReview p (before @ ChildExit code # after)))
         = Some (case code of None \<Rightarrow> 0 | Some c \<Rightarrow> c)
     \<and> host_exit (snd (runReview p before)) = None
     \<and> (\<forall>k. ProcessExit k \<notin> set (fst (runReview p before)))"
proof
  assume s: "list_all is_stream_event before"
  have init: "host_exit initial_supervisor = None"
    by (simp add: initial_supervisor_def)
  from runReview_exit_code [OF s, of p code after]
    run_from_stream_events [OF s init, of p]
  show "runReview p (before @ ChildExit code # after) =
       (fst (runReview p before)
          @ [ClearInterval, StderrWrite clear_line, FileEnd, review_saved p,
             ProcessExit (case code of None \<Rightarrow> 0 | Some c \<Rightarrow> c)],
        (snd (runReview p before))
          \<lparr>spinner_running := False,
           host_exit := Some (case code of None \<Rightarrow> 0 | Some c \<Rightarrow> c)\<rparr>)
     \<and> host_exit (snd (runReview p (before @ ChildExit code # after)))
         = Some (case code of None \<Rightarrow> 0 | Some c \<Rightarrow> c)
     \<and> host_exit (snd (runReview p before)) = None
     \<and> (\<forall>k. ProcessExit k \<notin> set (fst (runReview p before)))"
    by (simp add: runReview_def)
qed

text \<open>An agent that exits with 3 after its output, and one whose exit code is \<^verbatim>\<open>null\<close>.\<close>

theorem host_exit_mirrors_agent_witness:
  "host_exit (snd (runReview ''out.md''
       ([Tick, StdoutData ''x'', StdoutEnd] @ ChildExit (Some 3) # [Tick]))) = Some 3
   \<and> host_exit (snd (runReview ''out.md'' ([StdoutEnd] @ ChildExit None # []))) = Some 0"
proof -
  have a: "list_all is_stream_event [Tick, StdoutData ''x'', StdoutEnd]"
    by simp
  have b: "list_all is_stream_event [StdoutEnd]"
    by simp
  from host_exit_mirrors_agent [where p = "''out.md''"
      and before = "[Tick, StdoutData ''x'', StdoutEnd]" and code = "Some 3" and after = "[Tick]",
      THEN mp, OF a]
  have one: "host_exit (snd (runReview ''out.md''
       ([Tick, StdoutData ''x'', StdoutEnd] @ ChildExit (Some 3) # [Tick]))) = Some 3"
    by simp
  from host_exit_mirrors_agent [where p = "''out.md''" and before = "[StdoutEnd]"
      and code = None and after = "[]", THEN mp, OF b]
  have two: "host_exit (snd (runReview ''out.md'' ([StdoutEnd] @ ChildExit None # []))) = Some 0"
    by simp
  from one two show ?thesis by (rule conjI)
qed

end
